theory Spec2Isabelle
  imports Main "HOL-Library.AList"
begin

section \<open>JavaScript values\<close>

text \<open>
  The engine works on untyped JavaScript values: models (schemas), field
  specifications, data and error reports are all plain values. An object is the
  list of its own enumerable properties in enumeration order (the order of
  \<^verbatim>\<open>for (k in o)\<close> and \<^verbatim>\<open>Object.keys(o)\<close>), its keys distinct; arrays are dense;
  numbers are integers.

  A property read \<^verbatim>\<open>o[k]\<close> that finds no own property goes on to the built-in
  prototypes, so the functions and the prototype objects of the runtime are values
  too: \<open>JFun\<close> is a built-in function, named by its path
  (\<^verbatim>\<open>Object.prototype.toString\<close>), and \<open>JProto\<close> a built-in prototype object
  (\<^verbatim>\<open>Object.prototype\<close> is \<open>JProto ''Object''\<close>). Their methods are represented,
  their data properties (\<^verbatim>\<open>length\<close>, \<^verbatim>\<open>name\<close>) are not.

  Every object has the prototype \<^verbatim>\<open>Object.prototype\<close> and the built-ins are never
  changed. The one assignment that would change the prototype of an object,
  \<^verbatim>\<open>o['__proto__'] = v\<close>, creates no property, and the one that would change a
  built-in, \<^verbatim>\<open>o[k][i] = v\<close> with \<^verbatim>\<open>o[k]\<close> inherited, is lost for \<^verbatim>\<open>o\<close>; what the
  engine reads through a changed prototype afterwards is outside the model.
\<close>

datatype jsval =
    JUndefined
  | JNull
  | JBool bool
  | JNum int
  | JStr string
  | JArr "jsval list"
  | JObj "(string \<times> jsval) list"
  | JFun string
  | JProto string

datatype jserr = TypeError | Thrown string

text \<open>Truthiness, as tested by \<^verbatim>\<open>!x\<close>, \<^verbatim>\<open>x || y\<close> and \<^verbatim>\<open>if (x)\<close>.\<close>

fun truthy :: "jsval \<Rightarrow> bool" where
  "truthy JUndefined = False"
| "truthy JNull = False"
| "truthy (JBool b) = b"
| "truthy (JNum n) = (n \<noteq> 0)"
| "truthy (JStr s) = (s \<noteq> [])"
| "truthy (JArr xs) = True"
| "truthy (JObj kvs) = True"
| "truthy (JFun f) = True"
| "truthy (JProto p) = True"

fun nullish :: "jsval \<Rightarrow> bool" where
  "nullish JUndefined = True"
| "nullish JNull = True"
| "nullish v = False"

text \<open>Decimal rendering of an array index, as used for property keys.\<close>

function string_of_nat :: "nat \<Rightarrow> string" where
  "string_of_nat n =
     (if n < 10 then [''0123456789'' ! n]
      else string_of_nat (n div 10) @ [''0123456789'' ! (n mod 10)])"
  by pat_completeness auto
termination
  by (relation "measure id") auto

declare string_of_nat.simps [simp del]

definition index_of_key :: "string \<Rightarrow> nat \<Rightarrow> nat option" where
  "index_of_key k n = find (\<lambda>i. string_of_nat i = k) [0..<n]"

subsection \<open>The built-in prototypes\<close>

text \<open>
  The members of \<^verbatim>\<open>Object.prototype\<close>, which every value but \<^verbatim>\<open>undefined\<close> and
  \<^verbatim>\<open>null\<close> inherits: eleven methods and the accessor \<^verbatim>\<open>__proto__\<close>.
\<close>

definition object_prototype_methods :: "string list" where
  "object_prototype_methods =
     [''constructor'', ''__defineGetter__'', ''__defineSetter__'', ''hasOwnProperty'',
      ''__lookupGetter__'', ''__lookupSetter__'', ''isPrototypeOf'', ''propertyIsEnumerable'',
      ''toString'', ''valueOf'', ''toLocaleString'']"

definition object_prototype_names :: "string list" where
  "object_prototype_names = ''__proto__'' # object_prototype_methods"

text \<open>
  The methods of the other built-in prototypes (ECMAScript 2023 with its annex B),
  by the name of their constructor.
\<close>

definition proto_methods :: "string \<Rightarrow> string list" where
  "proto_methods p =
     (if p = ''Array'' then
        [''at'', ''concat'', ''constructor'', ''copyWithin'', ''entries'', ''every'', ''fill'',
         ''filter'', ''find'', ''findIndex'', ''findLast'', ''findLastIndex'', ''flat'',
         ''flatMap'', ''forEach'', ''includes'', ''indexOf'', ''join'', ''keys'',
         ''lastIndexOf'', ''map'', ''pop'', ''push'', ''reduce'', ''reduceRight'', ''reverse'',
         ''shift'', ''slice'', ''some'', ''sort'', ''splice'', ''toLocaleString'',
         ''toReversed'', ''toSorted'', ''toSpliced'', ''toString'', ''unshift'', ''values'',
         ''with'']
      else if p = ''String'' then
        [''anchor'', ''at'', ''big'', ''blink'', ''bold'', ''charAt'', ''charCodeAt'',
         ''codePointAt'', ''concat'', ''constructor'', ''endsWith'', ''fixed'', ''fontcolor'',
         ''fontsize'', ''includes'', ''indexOf'', ''isWellFormed'', ''italics'',
         ''lastIndexOf'', ''link'', ''localeCompare'', ''match'', ''matchAll'', ''normalize'',
         ''padEnd'', ''padStart'', ''repeat'', ''replace'', ''replaceAll'', ''search'',
         ''slice'', ''small'', ''split'', ''startsWith'', ''strike'', ''sub'', ''substr'',
         ''substring'', ''sup'', ''toLocaleLowerCase'', ''toLocaleUpperCase'', ''toLowerCase'',
         ''toString'', ''toUpperCase'', ''toWellFormed'', ''trim'', ''trimEnd'', ''trimLeft'',
         ''trimRight'', ''trimStart'', ''valueOf'']
      else if p = ''Number'' then
        [''constructor'', ''toExponential'', ''toFixed'', ''toLocaleString'', ''toPrecision'',
         ''toString'', ''valueOf'']
      else if p = ''Boolean'' then [''constructor'', ''toString'', ''valueOf'']
      else if p = ''Function'' then [''apply'', ''bind'', ''call'', ''constructor'', ''toString'']
      else [])"

text \<open>Every name under which some value inherits a member.\<close>

definition builtin_names :: "string list" where
  "builtin_names =
     object_prototype_names @ proto_methods ''Array'' @ proto_methods ''String'' @
     proto_methods ''Number'' @ proto_methods ''Boolean'' @ proto_methods ''Function''"

text \<open>
  The member found under a name on the prototype \<open>p\<close> or, failing that, on
  \<^verbatim>\<open>Object.prototype\<close>; and what a value with the prototype \<open>p\<close> inherits, where
  \<^verbatim>\<open>__proto__\<close> gives the prototype itself.
\<close>

definition chain_member :: "string \<Rightarrow> string \<Rightarrow> jsval" where
  "chain_member p k =
     (if k \<in> set (proto_methods p) then JFun (p @ ''.prototype.'' @ k)
      else if k \<in> set object_prototype_methods then JFun (''Object.prototype.'' @ k)
      else JUndefined)"

definition inherited :: "string \<Rightarrow> string \<Rightarrow> jsval" where
  "inherited p k = (if k = ''__proto__'' then JProto p else chain_member p k)"

text \<open>
  \<^verbatim>\<open>o[k]\<close> on a value that is neither \<^verbatim>\<open>undefined\<close> nor \<^verbatim>\<open>null\<close>: an own
  property, an array element, a character of a string or \<^verbatim>\<open>length\<close>; failing
  these, the inherited member; and \<^verbatim>\<open>undefined\<close> otherwise.
\<close>

fun get_prop :: "jsval \<Rightarrow> string \<Rightarrow> jsval" where
  "get_prop (JObj kvs) k = (case map_of kvs k of Some v \<Rightarrow> v | None \<Rightarrow> inherited ''Object'' k)"
| "get_prop (JArr xs) k =
     (if k = ''length'' then JNum (int (length xs))
      else case index_of_key k (length xs) of
             Some i \<Rightarrow> xs ! i
           | None \<Rightarrow> inherited ''Array'' k)"
| "get_prop (JStr s) k =
     (if k = ''length'' then JNum (int (length s))
      else case index_of_key k (length s) of
             Some i \<Rightarrow> JStr [s ! i]
           | None \<Rightarrow> inherited ''String'' k)"
| "get_prop (JNum n) k = inherited ''Number'' k"
| "get_prop (JBool b) k = inherited ''Boolean'' k"
| "get_prop (JFun f) k = inherited ''Function'' k"
| "get_prop (JProto p) k =
     (if k = ''__proto__'' then (if p = ''Object'' then JNull else JProto ''Object'')
      else chain_member p k)"
| "get_prop JUndefined k = JUndefined"
| "get_prop JNull k = JUndefined"

text \<open>
  The keys visited by \<^verbatim>\<open>for (k in o)\<close> and returned by \<^verbatim>\<open>Object.keys(o)\<close>; the
  members of the built-ins are not enumerable.
\<close>

fun own_keys :: "jsval \<Rightarrow> string list" where
  "own_keys (JObj kvs) = map fst kvs"
| "own_keys (JArr xs) = map string_of_nat [0..<length xs]"
| "own_keys (JStr s) = map string_of_nat [0..<length s]"
| "own_keys v = []"

text \<open>
  The values that schemas and data are made of: JSON-like values, which contain no
  built-in. The built-ins come up only as what a property read finds.
\<close>

fun json :: "jsval \<Rightarrow> bool" where
  "json (JArr xs) = list_all json xs"
| "json (JObj kvs) = list_all json (map snd kvs)"
| "json (JFun f) = False"
| "json (JProto p) = False"
| "json v = True"

text \<open>
  The own enumerable property of an object or an array under a key, if it has one;
  and whether an object has an own property named \<^verbatim>\<open>__proto__\<close>, which
  \<^verbatim>\<open>JSON.parse\<close> can create and an object literal cannot.
\<close>

fun own_prop :: "jsval \<Rightarrow> string \<Rightarrow> jsval option" where
  "own_prop (JObj kvs) k = map_of kvs k"
| "own_prop (JArr xs) k = map_option (nth xs) (index_of_key k (length xs))"
| "own_prop v k = None"


text \<open>
  \<^verbatim>\<open>o[k] = v\<close> on an object that was created as \<^verbatim>\<open>{}\<close>, by its own properties.
  The methods of \<^verbatim>\<open>Object.prototype\<close> are writable data properties, which the
  assignment shadows by an own property. \<^verbatim>\<open>__proto__\<close> is an accessor: its setter
  changes the prototype of the object and no property is created.
\<close>

definition assign :: "(string \<times> jsval) list \<Rightarrow> string \<Rightarrow> jsval \<Rightarrow> (string \<times> jsval) list" where
  "assign kvs k v = (if k = ''__proto__'' then kvs else AList.update k v kvs)"

text \<open>\<^verbatim>\<open>x || y\<close>.\<close>

definition js_or :: "jsval \<Rightarrow> jsval \<Rightarrow> jsval" where
  "js_or x y = (if truthy x then x else y)"

section \<open>Options and results\<close>

record opts =
  keyCheckOnly :: bool
  strict :: bool
  sparse :: bool

record vresult =
  valid :: bool
  errors :: jsval

section \<open>Collaborators that are not part of the validate module\<close>

text \<open>
  Modelled from the spec: the type predicates \<^verbatim>\<open>is.object\<close> and \<^verbatim>\<open>is.type\<close> of
  the module \<^verbatim>\<open>../is\<close>. A record is "a scalar, an array or a keyed object";
  \<^verbatim>\<open>is.object\<close> holds of keyed objects only and \<^verbatim>\<open>is.type\<close> names the type tag.
  Among the built-ins, \<^verbatim>\<open>Object.prototype\<close> is a keyed object and \<^verbatim>\<open>Array.prototype\<close>
  an array.
\<close>

fun is_object :: "jsval \<Rightarrow> bool" where
  "is_object (JObj kvs) = True"
| "is_object (JProto p) = (p = ''Object'')"
| "is_object v = False"

fun is_type :: "jsval \<Rightarrow> string" where
  "is_type JUndefined = ''undefined''"
| "is_type JNull = ''null''"
| "is_type (JBool b) = ''boolean''"
| "is_type (JNum n) = ''number''"
| "is_type (JStr s) = ''string''"
| "is_type (JArr xs) = ''array''"
| "is_type (JObj kvs) = ''object''"
| "is_type (JFun f) = ''function''"
| "is_type (JProto p) = (if p = ''Array'' then ''array'' else ''object'')"

text \<open>
  Modelled from the spec: \<^verbatim>\<open>Rules.isEmpty\<close> of the module \<^verbatim>\<open>../rules\<close>, which
  "treats undefined, null, empty string, and empty array/object as empty" (the
  prototypes of objects and arrays have no element and no enumerable property).
\<close>

fun isEmpty :: "jsval \<Rightarrow> bool" where
  "isEmpty JUndefined = True"
| "isEmpty JNull = True"
| "isEmpty (JStr s) = (s = [])"
| "isEmpty (JArr xs) = (xs = [])"
| "isEmpty (JObj kvs) = (kvs = [])"
| "isEmpty (JProto p) = (p = ''Object'' \<or> p = ''Array'')"
| "isEmpty v = False"

text \<open>
  The functions \<^verbatim>\<open>setDefault\<close> (module \<^verbatim>\<open>../default\<close>) and \<^verbatim>\<open>checkValue\<close>
  (module \<^verbatim>\<open>./checkValue\<close>) are parameters of the engine: \<^verbatim>\<open>setDefault(v, scm)\<close>
  returns a value, \<^verbatim>\<open>checkValue(v, scm, parentData, opts)\<close> returns the list of
  error messages or throws.
\<close>

record deps =
  setDefault :: "jsval \<Rightarrow> jsval \<Rightarrow> jsval"
  checkValue :: "jsval \<Rightarrow> jsval \<Rightarrow> jsval \<Rightarrow> opts \<Rightarrow> jserr + string list"

section \<open>The key check\<close>

definition MAX_USER_KEY_LEN :: nat where
  "MAX_USER_KEY_LEN = 48"

text \<open>
  \<^verbatim>\<open>key.length > MAX_USER_KEY_LEN ? key.substr(0, MAX_USER_KEY_LEN - 3) + '...' : key\<close>
\<close>

definition shortKey :: "string \<Rightarrow> string" where
  "shortKey key =
     (if length key > MAX_USER_KEY_LEN then take (MAX_USER_KEY_LEN - 3) key @ ''...''
      else key)"

text \<open>
  The loop \<^verbatim>\<open>for (let key in data)\<close> of \<^verbatim>\<open>_checkKeys\<close>, on the keys still to visit
  and the fields \<^verbatim>\<open>ret.valid\<close> and \<^verbatim>\<open>ret.errors\<close>. Reading \<^verbatim>\<open>model[key]\<close> throws
  a TypeError when the model is \<^verbatim>\<open>undefined\<close> or \<^verbatim>\<open>null\<close>; on any other model it
  finds the own property or the inherited member.
\<close>

fun checkKeys_loop ::
  "jsval \<Rightarrow> string list \<Rightarrow> bool \<times> (string \<times> jsval) list \<Rightarrow>
     jserr + bool \<times> (string \<times> jsval) list" where
  "checkKeys_loop model [] ret = Inr ret"
| "checkKeys_loop model (key # keys) (ok, errs) =
     (if nullish model then Inl TypeError
      else if \<not> truthy (get_prop model key)
        then checkKeys_loop model keys
               (False, assign errs (shortKey key) (JArr [JStr ''invalidKey'']))
      else checkKeys_loop model keys (ok, errs))"

definition priv_checkKeys :: "jsval \<Rightarrow> jsval \<Rightarrow> jserr + vresult" where
  "priv_checkKeys model data =
     (if \<not> is_object data
        then Inr \<lparr>valid = False, errors = JObj [(''data'', JArr [JStr ''invalidObject''])]\<rparr>
      else case checkKeys_loop model (own_keys data) (True, []) of
             Inl e \<Rightarrow> Inl e
           | Inr (ok, errs) \<Rightarrow> Inr \<lparr>valid = ok, errors = JObj errs\<rparr>)"

text \<open>The data keys the key check rejects: those for which \<^verbatim>\<open>!model[key]\<close> holds.\<close>

definition unknown_keys :: "jsval \<Rightarrow> string list \<Rightarrow> string list" where
  "unknown_keys model keys = filter (\<lambda>k. \<not> truthy (get_prop model k)) keys"

section \<open>The recursive validator\<close>

text \<open>\<^verbatim>\<open>v instanceof Array\<close>.\<close>

definition is_array :: "jsval \<Rightarrow> bool" where
  "is_array v = (case v of JArr xs \<Rightarrow> True | _ \<Rightarrow> False)"

text \<open>
  The three tests of \<^verbatim>\<open>_validate\<close> that decide whether a field is skipped:
  \<^verbatim>\<open>scm.required || scm.allowNull === false\<close>,
  \<^verbatim>\<open>!!Object.keys(scm.rules || {}).length\<close> and
  \<^verbatim>\<open>Rules.isEmpty(setDefault(v, scm))\<close>.
\<close>

definition isRequired :: "jsval \<Rightarrow> bool" where
  "isRequired scm =
     (truthy (get_prop scm ''required'') \<or> get_prop scm ''allowNull'' = JBool False)"

definition hasRules :: "jsval \<Rightarrow> bool" where
  "hasRules scm = (length (own_keys (js_or (get_prop scm ''rules'') (JObj []))) \<noteq> 0)"

definition hasEmptyDefault :: "deps \<Rightarrow> jsval \<Rightarrow> jsval \<Rightarrow> bool" where
  "hasEmptyDefault d v scm = isEmpty (setDefault d v scm)"

text \<open>
  \<^verbatim>\<open>if (!errs[key]) errs[key] = {}; errs[key][idx] = e\<close>, the index becoming the
  property key \<^verbatim>\<open>String(idx)\<close>. The test \<^verbatim>\<open>!errs[key]\<close> also finds what \<^verbatim>\<open>errs\<close>
  inherits: under the name of a member of \<^verbatim>\<open>Object.prototype\<close> no object is
  created, the second assignment sets the property on the built-in, and \<^verbatim>\<open>errs\<close>
  gets nothing.
\<close>

fun set_prop :: "jsval \<Rightarrow> string \<Rightarrow> jsval \<Rightarrow> jsval" where
  "set_prop (JObj kvs) k v = JObj (assign kvs k v)"
| "set_prop x k v = x"

definition set_index_error ::
  "(string \<times> jsval) list \<Rightarrow> string \<Rightarrow> nat \<Rightarrow> jsval \<Rightarrow> (string \<times> jsval) list" where
  "set_index_error errs key idx e =
     (let errs1 = (if \<not> truthy (get_prop (JObj errs) key)
                   then assign errs key (JObj []) else errs)
      in case map_of errs1 key of
           Some target \<Rightarrow> AList.update key (set_prop target (string_of_nat idx) e) errs1
         | None \<Rightarrow> errs1)"

subsection \<open>Termination: every recursive call descends into a sub-model\<close>

lemma string_of_nat_digits: "set (string_of_nat n) \<subseteq> set ''0123456789''"
proof (induction n rule: string_of_nat.induct)
  case (1 n)
  have a: "''0123456789'' ! (n mod 10) \<in> set ''0123456789''"
    by (rule nth_mem) simp
  show ?case
  proof (cases "n < 10")
    case True
    then have "''0123456789'' ! n \<in> set ''0123456789''"
      by (intro nth_mem) simp
    with True show ?thesis
      by (subst string_of_nat.simps) simp
  next
    case False
    with 1 a show ?thesis
      by (subst string_of_nat.simps) simp
  qed
qed

lemma index_of_key_model: "index_of_key ''model'' n = None"
proof -
  have "string_of_nat i \<noteq> ''model''" for i
    using string_of_nat_digits [of i] by auto
  then show ?thesis
    by (simp add: index_of_key_def find_None_iff)
qed

lemma proto_methods_builtin: "k \<in> set (proto_methods p) \<Longrightarrow> k \<in> set builtin_names"
proof -
  assume k: "k \<in> set (proto_methods p)"
  have "p = ''Array'' \<or> p = ''String'' \<or> p = ''Number'' \<or> p = ''Boolean'' \<or>
        p = ''Function'' \<or> proto_methods p = []"
    by (simp add: proto_methods_def)
  with k show ?thesis
    unfolding builtin_names_def by auto
qed

lemma chain_member_none: "k \<notin> set builtin_names \<Longrightarrow> chain_member p k = JUndefined"
  using proto_methods_builtin [of k p]
  by (auto simp: chain_member_def builtin_names_def object_prototype_names_def)

lemma inherited_none: "k \<notin> set builtin_names \<Longrightarrow> inherited p k = JUndefined"
  using chain_member_none [of k p]
  by (auto simp: inherited_def builtin_names_def object_prototype_names_def)

lemma model_not_builtin: "''model'' \<notin> set builtin_names"
  by (simp add: builtin_names_def object_prototype_names_def object_prototype_methods_def
        proto_methods_def)

lemma inherited_model: "inherited p ''model'' = JUndefined"
  by (rule inherited_none [OF model_not_builtin])

lemma size_map_of: "map_of kvs k = Some v \<Longrightarrow> size v < size (JObj kvs)"
  by (induction kvs) (auto split: if_splits)

lemma size_nth: "i < length xs \<Longrightarrow> size (xs ! i) < size (JArr xs)"
proof (induction xs arbitrary: i)
  case Nil
  then show ?case by simp
next
  case (Cons x xs)
  show ?case
  proof (cases i)
    case 0
    then show ?thesis by simp
  next
    case (Suc j)
    with Cons.prems have "j < length xs" by simp
    from Cons.IH [OF this] Suc show ?thesis by simp
  qed
qed

lemma index_of_key_less: "index_of_key k n = Some i \<Longrightarrow> i < n"
  by (auto simp: index_of_key_def find_Some_iff)

lemma size_get_prop_object: "get_prop m k = JObj kvs \<Longrightarrow> size (JObj kvs) < size m"
proof (cases m)
  case (JArr xs)
  assume g: "get_prop m k = JObj kvs"
  show ?thesis
  proof (cases "index_of_key k (length xs)")
    case None
    with JArr g show ?thesis
      by (simp add: inherited_def chain_member_def split: if_splits)
  next
    case (Some i)
    then have "size (xs ! i) < size (JArr xs)"
      by (intro size_nth index_of_key_less)
    with JArr Some g show ?thesis by (simp split: if_splits)
  qed
next
  case (JObj kvs')
  assume g: "get_prop m k = JObj kvs"
  show ?thesis
  proof (cases "map_of kvs' k")
    case None
    with JObj g show ?thesis
      by (simp add: inherited_def chain_member_def split: if_splits)
  next
    case (Some v)
    with JObj g size_map_of [OF Some] show ?thesis by simp
  qed
qed (auto simp: inherited_def chain_member_def split: if_splits option.splits)

lemma size_sub_model:
  "truthy (get_prop (get_prop m k) ''model'') \<Longrightarrow>
     size (get_prop (get_prop m k) ''model'') < size m"
proof (cases "get_prop m k")
  case (JObj kvs)
  assume t: "truthy (get_prop (get_prop m k) ''model'')"
  show ?thesis
  proof (cases "map_of kvs ''model''")
    case None
    with JObj t show ?thesis by (simp add: inherited_model)
  next
    case (Some v)
    from size_map_of [OF Some] size_get_prop_object [OF JObj] Some JObj show ?thesis by simp
  qed
next
  case (JProto p)
  assume "truthy (get_prop (get_prop m k) ''model'')"
  with JProto show ?thesis
    by (simp add: chain_member_none [OF model_not_builtin])
qed (simp_all add: index_of_key_model inherited_model)

text \<open>
  \<^verbatim>\<open>_validate(data, model, opts, parentData)\<close>, with its loop over the keys of the
  model (\<open>validate_fields\<close>, on the keys still to visit and \<^verbatim>\<open>errs\<close>) and the
  \<^verbatim>\<open>v.forEach\<close> over the elements of an array field (\<open>validate_elems\<close>, on the
  elements still to visit, the index and \<^verbatim>\<open>errs\<close>). The statement
  \<^verbatim>\<open>return (errs[key] = checkedKeys)\<close> leaves \<^verbatim>\<open>_validate\<close> with the key-check
  report as its result; the assignment to \<^verbatim>\<open>errs\<close> is lost with it. Calling
  \<^verbatim>\<open>v.forEach\<close> on a value that is not an array throws a TypeError.
\<close>

function priv_validate :: "deps \<Rightarrow> jsval \<Rightarrow> jsval \<Rightarrow> opts \<Rightarrow> jsval \<Rightarrow> jserr + vresult"
  and validate_fields ::
    "deps \<Rightarrow> jsval \<Rightarrow> jsval \<Rightarrow> opts \<Rightarrow> string list \<Rightarrow> (string \<times> jsval) list \<Rightarrow> jserr + vresult"
  and validate_elems ::
    "deps \<Rightarrow> jsval \<Rightarrow> jsval \<Rightarrow> opts \<Rightarrow> string \<Rightarrow> jsval list \<Rightarrow> nat \<Rightarrow> (string \<times> jsval) list \<Rightarrow>
       jserr + (string \<times> jsval) list"
where
  "priv_validate d data model opts parentData =
     (if \<not> is_object data then
        (case checkValue d data model parentData opts of
           Inl e \<Rightarrow> Inl e
         | Inr res \<Rightarrow>
             Inr (if length res \<noteq> 0 then \<lparr>valid = False, errors = JArr (map JStr res)\<rparr>
                  else \<lparr>valid = True, errors = JNull\<rparr>))
      else validate_fields d data model opts (own_keys model) [])"
| "validate_fields d data model opts [] errs =
     Inr (if length (own_keys (JObj errs)) < 1 then \<lparr>valid = True, errors = JNull\<rparr>
          else \<lparr>valid = False, errors = JObj errs\<rparr>)"
| "validate_fields d data model opts (key # keys) errs =
     (let scm = get_prop model key in
      if \<not> truthy scm then validate_fields d data model opts keys errs
      else
        let v = get_prop data key in
        if \<not> hasRules scm \<and> \<not> isRequired scm \<and> hasEmptyDefault d v scm
          then validate_fields d data model opts keys errs
        else if truthy (get_prop scm ''model'') then
          (if get_prop scm ''type'' = JStr ''array'' \<or> is_array v then
             (if \<not> truthy v then validate_fields d data model opts keys errs
              else case v of
                  JArr vals \<Rightarrow>
                    (case validate_elems d data (get_prop scm ''model'') opts key vals 0 errs of
                       Inl e \<Rightarrow> Inl e
                     | Inr errs' \<Rightarrow> validate_fields d data model opts keys errs')
                | _ \<Rightarrow> Inl TypeError)
           else
             (case priv_checkKeys (get_prop scm ''model'') v of
                Inl e \<Rightarrow> Inl e
              | Inr checkedKeys \<Rightarrow>
                  if \<not> valid checkedKeys then Inr checkedKeys
                  else
                    (case priv_validate d v (get_prop scm ''model'') opts (JObj []) of
                       Inl e \<Rightarrow> Inl e
                     | Inr sub \<Rightarrow>
                         validate_fields d data model opts keys
                           (if \<not> valid sub then assign errs key (errors sub) else errs))))
        else
          (case checkValue d v scm data opts of
             Inl e \<Rightarrow> Inl e
           | Inr es \<Rightarrow>
               validate_fields d data model opts keys
                 (if length es \<noteq> 0 then assign errs key (JArr (map JStr es)) else errs)))"
| "validate_elems d data sub opts key [] idx errs = Inr errs"
| "validate_elems d data sub opts key (val # vals) idx errs =
     (if is_type val = ''object'' then
        (case priv_validate d val sub opts (JObj []) of
           Inl e \<Rightarrow> Inl e
         | Inr arsub \<Rightarrow>
             validate_elems d data sub opts key vals (Suc idx)
               (if \<not> valid arsub then set_index_error errs key idx (errors arsub) else errs))
      else
        (case checkValue d val sub data opts of
           Inl e \<Rightarrow> Inl e
         | Inr er \<Rightarrow>
             validate_elems d data sub opts key vals (Suc idx)
               (if length er \<noteq> 0 then set_index_error errs key idx (JArr (map JStr er)) else errs)))"
  by pat_completeness auto

termination
  apply (relation "measures [
     (\<lambda>x. case x of Inl (d, data, model, opts, p) \<Rightarrow> size model
                    | Inr (Inl (d, data, model, opts, keys, errs)) \<Rightarrow> size model
                    | Inr (Inr (d, data, sub, opts, key, vals, idx, errs)) \<Rightarrow> size sub),
     (\<lambda>x. case x of Inl _ \<Rightarrow> 1 | Inr (Inl _) \<Rightarrow> 0 | Inr (Inr _) \<Rightarrow> 2),
     (\<lambda>x. case x of Inl _ \<Rightarrow> 0
                    | Inr (Inl (d, data, model, opts, keys, errs)) \<Rightarrow> length keys
                    | Inr (Inr (d, data, sub, opts, key, vals, idx, errs)) \<Rightarrow> length vals)]")
  apply (simp_all add: size_sub_model)
  done

declare priv_validate.simps [simp del]

text \<open>
  The fields at which \<^verbatim>\<open>_validate\<close> returns at once with the key-check report: a
  field that is not skipped and declares a single sub-object whose key check fails.
\<close>

definition sub_check_fails :: "deps \<Rightarrow> jsval \<Rightarrow> jsval \<Rightarrow> string \<Rightarrow> bool" where
  "sub_check_fails d model data key =
     (let scm = get_prop model key; v = get_prop data key in
      truthy scm \<and>
      (hasRules scm \<or> isRequired scm \<or> \<not> hasEmptyDefault d v scm) \<and>
      truthy (get_prop scm ''model'') \<and>
      \<not> (get_prop scm ''type'' = JStr ''array'' \<or> is_array v) \<and>
      (case priv_checkKeys (get_prop scm ''model'') v of Inl e \<Rightarrow> False | Inr ck \<Rightarrow> \<not> valid ck))"

text \<open>
  What the body of \<^verbatim>\<open>v.forEach\<close> finds for one element: the error report of an
  element that fails, nothing for one that passes.
\<close>

definition elem_report :: "deps \<Rightarrow> jsval \<Rightarrow> jsval \<Rightarrow> opts \<Rightarrow> jsval \<Rightarrow> jserr + jsval option" where
  "elem_report d data sub opts val =
     (if is_type val = ''object'' then
        (case priv_validate d val sub opts (JObj []) of
           Inl e \<Rightarrow> Inl e
         | Inr arsub \<Rightarrow> Inr (if \<not> valid arsub then Some (errors arsub) else None))
      else
        (case checkValue d val sub data opts of
           Inl e \<Rightarrow> Inl e
         | Inr er \<Rightarrow> Inr (if length er \<noteq> 0 then Some (JArr (map JStr er)) else None)))"

text \<open>
  The own property \<^verbatim>\<open>errors[key][i]\<close> of an error report, if the report has an own
  entry under the key and the entry an own property under the index.
\<close>

definition index_entry :: "jsval \<Rightarrow> string \<Rightarrow> nat \<Rightarrow> jsval option" where
  "index_entry report key i =
     (case own_prop report key of
        Some entry \<Rightarrow> own_prop entry (string_of_nat i)
      | None \<Rightarrow> None)"

text \<open>
  \<^verbatim>\<open>_sparse(data, model, opts)\<close>: the loop \<^verbatim>\<open>for (let key in data)\<close> on the keys
  still to visit and the variables \<^verbatim>\<open>isValid\<close> and \<^verbatim>\<open>errs\<close>. The result carries
  \<^verbatim>\<open>errs\<close> as it stands, an empty object when nothing failed.
\<close>

fun sparse_loop ::
  "deps \<Rightarrow> jsval \<Rightarrow> jsval \<Rightarrow> opts \<Rightarrow> string list \<Rightarrow> bool \<times> (string \<times> jsval) list \<Rightarrow>
     jserr + bool \<times> (string \<times> jsval) list" where
  "sparse_loop d data model opts [] ret = Inr ret"
| "sparse_loop d data model opts (key # keys) (isValid, errs) =
     (if nullish model then Inl TypeError
      else if \<not> truthy (get_prop model key) then sparse_loop d data model opts keys (isValid, errs)
      else
        (case priv_validate d (get_prop data key) (get_prop model key) opts data of
           Inl e \<Rightarrow> Inl e
         | Inr out \<Rightarrow>
             sparse_loop d data model opts keys
               (if \<not> valid out then (False, assign errs key (errors out))
                else (isValid, errs))))"

definition priv_sparse :: "deps \<Rightarrow> jsval \<Rightarrow> jsval \<Rightarrow> opts \<Rightarrow> jserr + vresult" where
  "priv_sparse d data model opts =
     (case sparse_loop d data model opts (own_keys data) (True, []) of
        Inl e \<Rightarrow> Inl e
      | Inr (isValid, errs) \<Rightarrow> Inr \<lparr>valid = isValid, errors = JObj errs\<rparr>)"

section \<open>The public operation\<close>

text \<open>
  \<^verbatim>\<open>validate(model, data, opts = {})\<close>. The options are read for their truthiness
  only, so they are a record of booleans. Under \<open>strict\<close> the key check runs first,
  and its report (or its exception) is the result unless it is valid.
\<close>

definition validate :: "deps \<Rightarrow> jsval \<Rightarrow> jsval \<Rightarrow> opts \<Rightarrow> jserr + vresult" where
  "validate d model data opts =
     (if keyCheckOnly opts then priv_checkKeys model data
      else if strict opts \<and> \<not> (case priv_checkKeys model data of Inl e \<Rightarrow> False | Inr ck \<Rightarrow> valid ck)
        then priv_checkKeys model data
      else if sparse opts then priv_sparse d data model opts
      else priv_validate d data model opts (JObj []))"

section \<open>The spec's account of a result\<close>





section \<open>An instance of the collaborators\<close>

text \<open>
  Modelled from the spec: \<^verbatim>\<open>setDefault\<close> of the module \<^verbatim>\<open>../default\<close>. A field's
  \<^verbatim>\<open>default\<close> is "applied when the resolved value is absent/empty".
\<close>

definition spec_setDefault :: "jsval \<Rightarrow> jsval \<Rightarrow> jsval" where
  "spec_setDefault v scm =
     (if isEmpty v \<and> get_prop scm ''default'' \<noteq> JUndefined then get_prop scm ''default''
      else v)"

text \<open>
  Modelled from the spec: the message of a failing rule \<open>R\<close> on a field with
  \<^verbatim>\<open>errors\<close> configuration \<open>E\<close>, used by \<^verbatim>\<open>checkValue\<close>: \<open>E[R]\<close> when \<open>E\<close> is an
  object that defines it, else \<open>E.default\<close>, else \<open>E\<close> when it is a string, else the
  system message.
\<close>

definition error_msg :: "jsval \<Rightarrow> string \<Rightarrow> string \<Rightarrow> string" where
  "error_msg E R sysmsg =
     (case (if is_object E then get_prop E R else JUndefined) of
        JStr m \<Rightarrow> m
      | _ \<Rightarrow>
          (case (if is_object E then get_prop E ''default'' else JUndefined) of
             JStr m \<Rightarrow> m
           | _ \<Rightarrow> (case E of JStr m \<Rightarrow> m | _ \<Rightarrow> sysmsg)))"

text \<open>
  Modelled from the spec: the type tags a field may declare. A declared type is
  checked against the raw value; numbers are integers here, so \<^verbatim>\<open>number\<close> and
  \<^verbatim>\<open>integer\<close> accept the same values. Any other tag has no check of its own.
\<close>

definition type_ok :: "string \<Rightarrow> jsval \<Rightarrow> bool option" where
  "type_ok t v =
     (if t \<in> set [''string'', ''boolean'', ''array'', ''object''] then Some (is_type v = t)
      else if t \<in> set [''number'', ''integer''] then Some (is_type v = ''number'')
      else None)"

text \<open>
  Modelled from the spec: the rule registry of the module \<^verbatim>\<open>../rules\<close>, a map from
  rule names to predicates \<open>(value, args, context)\<close>.
\<close>

type_synonym rule_registry = "string \<Rightarrow> (jsval \<Rightarrow> jsval list \<Rightarrow> jsval \<Rightarrow> bool) option"

text \<open>
  Modelled from the spec: the arguments of a rule; "a rule value supplied as a bare
  scalar is wrapped as a single-element argument list".
\<close>

definition rule_args :: "jsval \<Rightarrow> jsval list" where
  "rule_args cfg = (case cfg of JArr xs \<Rightarrow> xs | _ \<Rightarrow> [cfg])"

text \<open>
  Modelled from the spec: the rules of a field applied in their order, each failure
  giving one message: \<^verbatim>\<open>Failed: R\<close> for a registered rule, \<^verbatim>\<open>Unknown: R\<close> for a name
  that is not registered, unless the field configures its own.
\<close>

fun check_rules ::
  "rule_registry \<Rightarrow> jsval \<Rightarrow> jsval \<Rightarrow> jsval \<Rightarrow> (string \<times> jsval) list \<Rightarrow> string list" where
  "check_rules reg E v ctx [] = []"
| "check_rules reg E v ctx ((R, cfg) # rs) =
     (case reg R of
        None \<Rightarrow> [error_msg E R (''Unknown: '' @ R)]
      | Some p \<Rightarrow> if p v (rule_args cfg) ctx then [] else [error_msg E R (''Failed: '' @ R)])
     @ check_rules reg E v ctx rs"

text \<open>Modelled from the spec: the \<^verbatim>\<open>rules\<close> mapping of a field specification.\<close>

definition declared_rules :: "jsval \<Rightarrow> (string \<times> jsval) list" where
  "declared_rules scm = (case get_prop scm ''rules'' of JObj rs \<Rightarrow> rs | _ \<Rightarrow> [])"

text \<open>
  Modelled from the spec: \<^verbatim>\<open>checkValue(value, fieldSpec, context, options)\<close> of the
  module \<^verbatim>\<open>./checkValue\<close>, the scalar check. No field specification means no error;
  \<^verbatim>\<open>allowNull: false\<close> forbids \<^verbatim>\<open>null\<close> and \<^verbatim>\<open>undefined\<close>, otherwise \<^verbatim>\<open>null\<close> passes
  every check; a required value must not be empty; an \<^verbatim>\<open>undefined\<close> value that is not
  required passes; then come the "type check, then each declared rule". A \<^verbatim>\<open>type\<close>
  that is neither a string nor an object is a malformed schema and throws.
\<close>

definition spec_checkValue ::
  "rule_registry \<Rightarrow> jsval \<Rightarrow> jsval \<Rightarrow> jsval \<Rightarrow> opts \<Rightarrow> jserr + string list" where
  "spec_checkValue reg v scm ctx opts =
     (let E = get_prop scm ''errors'';
          rule_msgs = check_rules reg E v ctx (declared_rules scm)
      in
        if \<not> truthy scm then Inr []
        else if get_prop scm ''allowNull'' = JBool False \<and> nullish v
          then Inr [error_msg E ''allowNull'' ''Failed: allowNull'']
        else if v = JNull then Inr []
        else if truthy (get_prop scm ''required'') \<and> isEmpty v
          then Inr [error_msg E ''required'' ''Failed: required'']
        else if v = JUndefined then Inr []
        else
          (case get_prop scm ''type'' of
             JUndefined \<Rightarrow> Inr rule_msgs
           | JStr t \<Rightarrow>
               (case type_ok t v of
                  None \<Rightarrow> Inr rule_msgs
                | Some ok \<Rightarrow>
                    Inr ((if ok then [] else [error_msg E ''type'' (''Not of type: '' @ t)])
                         @ rule_msgs))
           | JObj kvs \<Rightarrow> Inr rule_msgs
           | _ \<Rightarrow> Inl (Thrown ''Invalid schema'')))"


text \<open>
  Modelled from the spec: the length and bound rules of the built-in registry
  (\<^verbatim>\<open>min\<close>, \<^verbatim>\<open>max\<close>, \<^verbatim>\<open>minLength\<close>, \<^verbatim>\<open>maxLength\<close>).
\<close>

definition builtin_rules :: rule_registry where
  "builtin_rules R =
     (if R = ''min'' then
        Some (\<lambda>v args ctx. case (v, args) of (JNum n, [JNum lo]) \<Rightarrow> lo \<le> n | _ \<Rightarrow> False)
      else if R = ''max'' then
        Some (\<lambda>v args ctx. case (v, args) of (JNum n, [JNum hi]) \<Rightarrow> n \<le> hi | _ \<Rightarrow> False)
      else if R = ''minLength'' then
        Some (\<lambda>v args ctx. case (v, args) of
                (JStr s, [JNum lo]) \<Rightarrow> lo \<le> int (length s) | _ \<Rightarrow> False)
      else if R = ''maxLength'' then
        Some (\<lambda>v args ctx. case (v, args) of
                (JStr s, [JNum hi]) \<Rightarrow> int (length s) \<le> hi | _ \<Rightarrow> False)
      else None)"

text \<open>
  Modelled from the spec: the two collaborators of the validator as the spec
  describes them.
\<close>

definition spec_deps :: deps where
  "spec_deps = \<lparr>setDefault = spec_setDefault, checkValue = spec_checkValue builtin_rules\<rparr>"

section \<open>The transform pipeline\<close>

text \<open>
  The registry \<^verbatim>\<open>_transforms\<close> maps names to functions on values; a function may
  throw. It is a parameter of the pipeline: the casters \<^verbatim>\<open>to...\<close> come from a module
  that is not part of these sources, and \<^verbatim>\<open>transform.add\<close> extends it.
\<close>

type_synonym transform_registry = "(string \<times> (jsval \<Rightarrow> jserr + jsval)) list"

text \<open>
  The four transforms the module defines, on ASCII strings: \<^verbatim>\<open>v.trim()\<close>,
  \<^verbatim>\<open>v.replace(/ /g, '')\<close>, \<^verbatim>\<open>v.toUpperCase()\<close> and \<^verbatim>\<open>v.toLowerCase()\<close>. On a
  value that is not a string the method does not exist and the call throws.
\<close>

definition is_space :: "char \<Rightarrow> bool" where
  "is_space c = (c \<in> set [CHR '' '', CHR 0x09, CHR 0x0A, CHR 0x0B, CHR 0x0C, CHR 0x0D])"

definition upper_char :: "char \<Rightarrow> char" where
  "upper_char c = (let n = (of_char c :: nat) in if 97 \<le> n \<and> n \<le> 122 then char_of (n - 32) else c)"

definition lower_char :: "char \<Rightarrow> char" where
  "lower_char c = (let n = (of_char c :: nat) in if 65 \<le> n \<and> n \<le> 90 then char_of (n + 32) else c)"

definition on_string :: "(string \<Rightarrow> string) \<Rightarrow> jsval \<Rightarrow> jserr + jsval" where
  "on_string f v = (case v of JStr s \<Rightarrow> Inr (JStr (f s)) | _ \<Rightarrow> Inl TypeError)"

definition builtin_transforms :: transform_registry where
  "builtin_transforms =
     [(''trim'', on_string (\<lambda>s. rev (dropWhile is_space (rev (dropWhile is_space s))))),
      (''nowhite'', on_string (filter (\<lambda>c. c \<noteq> CHR '' ''))),
      (''uppercase'', on_string (map upper_char)),
      (''lowercase'', on_string (map lower_char))]"






definition transform_add :: "string \<Rightarrow> (jsval \<Rightarrow> jserr + jsval) \<Rightarrow> transform_registry \<Rightarrow> transform_registry" where
  "transform_add key fn reg = AList.update key fn reg"

text \<open>
  The pipeline in the spec's words: \<^verbatim>\<open>applyTransforms(value, names)\<close> "applies the
  list in declared order, each function consuming the previous output; undefined
  values pass through untouched; unknown transform names are silently skipped".
  \<open>pipeline\<close> runs a list of functions in order (an exception ends it), and
  \<open>spec_applyTransforms\<close> runs the functions registered under the names of the list.
\<close>

fun pipeline :: "(jsval \<Rightarrow> jserr + jsval) list \<Rightarrow> jsval \<Rightarrow> jserr + jsval" where
  "pipeline [] val = Inr val"
| "pipeline (f # fs) val = (case f val of Inl e \<Rightarrow> Inl e | Inr val' \<Rightarrow> pipeline fs val')"

definition spec_applyTransforms :: "transform_registry \<Rightarrow> jsval \<Rightarrow> string list \<Rightarrow> jserr + jsval" where
  "spec_applyTransforms reg val keys =
     (if val = JUndefined then Inr val else pipeline (List.map_filter (map_of reg) keys) val)"

section \<open>Stripping and formatting\<close>

text \<open>
  \<^verbatim>\<open>strip\<close> changes the object it is given, so records live in a heap: a list of
  objects, a reference being an index into it.
\<close>

type_synonym obj = "(string \<times> jsval) list"
type_synonym heap = "obj list"

text \<open>
  \<^verbatim>\<open>a === b\<close> for a field value and a sentinel: equality of primitive values; an
  array or object is equal to itself only, and a field value is never the very
  object that is a sentinel.
\<close>

definition strict_eq :: "jsval \<Rightarrow> jsval \<Rightarrow> bool" where
  "strict_eq a b = (case a of JArr xs \<Rightarrow> False | JObj kvs \<Rightarrow> False | _ \<Rightarrow> a = b)"

text \<open>\<^verbatim>\<open>if (!(values instanceof Array)) values = [values]\<close>.\<close>

definition as_array :: "jsval \<Rightarrow> jsval list" where
  "as_array values = (case values of JArr xs \<Rightarrow> xs | _ \<Rightarrow> [values])"

text \<open>
  \<^verbatim>\<open>values.forEach(val => data[k] === val && delete data[k])\<close>, and the loop
  \<^verbatim>\<open>for (var k in data)\<close> of \<^verbatim>\<open>strip(values, data)\<close> over the own keys of the
  object. \<open>strip\<close> replaces the object at the address it is given.
\<close>

fun strip_each :: "jsval list \<Rightarrow> string \<Rightarrow> obj \<Rightarrow> obj" where
  "strip_each [] k data = data"
| "strip_each (val # vals) k data =
     strip_each vals k
       (if strict_eq (get_prop (JObj data) k) val then AList.delete k data else data)"

fun strip_loop :: "jsval \<Rightarrow> string list \<Rightarrow> obj \<Rightarrow> obj" where
  "strip_loop values [] data = data"
| "strip_loop values (k # ks) data =
     strip_loop (JArr (as_array values)) ks (strip_each (as_array values) k data)"

definition strip :: "jsval \<Rightarrow> nat \<Rightarrow> heap \<Rightarrow> heap" where
  "strip values a h =
     (if a < length h then h[a := strip_loop values (own_keys (JObj (h ! a))) (h ! a)] else h)"

text \<open>
  The fields that \<open>strip\<close> keeps when it has visited the keys \<open>ks\<close>: those whose
  value matches no sentinel.
\<close>

definition kept :: "jsval \<Rightarrow> string list \<Rightarrow> string \<times> jsval \<Rightarrow> bool" where
  "kept sent ks p = (\<not> (fst p \<in> set ks \<and> (\<exists>val\<in>set (as_array sent). strict_eq (snd p) val)))"

text \<open>
  Modelled from the spec: the steps 2 to 4 of \<^verbatim>\<open>format\<close> that compute a field's value
  (defaults, generate, transform, with the recursion into sub-schemas). They are a
  parameter: a pure function of the options, the key, the field specification, the
  current value and whether the key is present on the data, which returns the new
  value or throws.
\<close>

record fdeps =
  compute :: "jsval \<Rightarrow> string \<Rightarrow> jsval \<Rightarrow> jsval \<Rightarrow> bool \<Rightarrow> jserr + jsval"

text \<open>Modelled from the spec: whether a key is present on the input data.\<close>

definition has_key :: "obj \<Rightarrow> string \<Rightarrow> bool" where
  "has_key data k = (k \<in> set (map fst data))"

text \<open>
  Modelled from the spec: step 1 of \<^verbatim>\<open>format\<close>, the sparse filter, which restricts
  "the working key set to the intersection of schema fields and (if sparse) present
  data keys".
\<close>

definition working_keys :: "jsval \<Rightarrow> obj \<Rightarrow> jsval \<Rightarrow> string list" where
  "working_keys schema data opts =
     (if truthy (get_prop opts ''sparse'') then filter (has_key data) (own_keys schema)
      else own_keys schema)"

text \<open>
  Modelled from the spec: the loop of \<^verbatim>\<open>format\<close> over the working keys, which
  builds the new record \<open>out\<close>. The value of a field is computed (steps 2 to 4); a
  field marked \<^verbatim>\<open>protect\<close> is removed unless the option \<^verbatim>\<open>protect\<close> is set (step 5); a
  key that is absent from the data and gets no value is not set.
\<close>

fun format_fields ::
  "fdeps \<Rightarrow> jsval \<Rightarrow> obj \<Rightarrow> jsval \<Rightarrow> string list \<Rightarrow> obj \<Rightarrow> jserr + obj" where
  "format_fields fd schema data opts [] out = Inr out"
| "format_fields fd schema data opts (k # ks) out =
     (case compute fd opts k (get_prop schema k) (get_prop (JObj data) k) (has_key data k) of
        Inl e \<Rightarrow> Inl e
      | Inr v \<Rightarrow>
          format_fields fd schema data opts ks
            (if truthy (get_prop (get_prop schema k) ''protect'') \<and> \<not> truthy (get_prop opts ''protect'')
               then out
             else if v = JUndefined \<and> \<not> has_key data k then out
             else AList.update k v out))"

text \<open>
  Modelled from the spec: step 7 of \<^verbatim>\<open>format\<close>: "if the schema has a primaryKey
  field, copy data[mapIdFrom] onto that field's output key and remove the source
  key".
\<close>

definition primary_key :: "jsval \<Rightarrow> string option" where
  "primary_key schema =
     find (\<lambda>k. truthy (get_prop (get_prop schema k) ''primaryKey'')) (own_keys schema)"

text \<open>Modelled from the spec: step 7 of \<^verbatim>\<open>format\<close>, on the new record.\<close>

definition map_id :: "jsval \<Rightarrow> obj \<Rightarrow> jsval \<Rightarrow> obj \<Rightarrow> obj" where
  "map_id schema data opts out =
     (case (get_prop opts ''mapIdFrom'', primary_key schema) of
        (JStr src, Some pk) \<Rightarrow>
          AList.delete src (AList.update pk (get_prop (JObj data) src) out)
      | _ \<Rightarrow> out)"

text \<open>
  Modelled from the spec: the operation \<^verbatim>\<open>format(schema, data, options)\<close> of the
  Format Engine, whose module is not part of these sources. It "always builds and
  returns a new structure": the new record starts from the keys of the data that
  the schema does not declare (none under \<^verbatim>\<open>strict\<close>), gets the fields of the working
  keys and is stored at a new address; then \<open>strip\<close> removes from the new record the
  fields that match a sentinel of the option \<^verbatim>\<open>strip\<close> (step 6), and \<^verbatim>\<open>mapIdFrom\<close> is
  applied to it (step 7). No data (\<open>None\<close>) formats the empty record.
\<close>

definition format :: "fdeps \<Rightarrow> jsval \<Rightarrow> nat option \<Rightarrow> jsval \<Rightarrow> heap \<Rightarrow> jserr + nat \<times> heap" where
  "format fd schema data opts h =
     (let input = (case data of None \<Rightarrow> [] | Some a \<Rightarrow> if a < length h then h ! a else []);
          extra = (if truthy (get_prop opts ''strict'') then []
                   else filter (\<lambda>(k, v). k \<notin> set (own_keys schema)) input)
      in case format_fields fd schema input opts (working_keys schema input opts) extra of
           Inl e \<Rightarrow> Inl e
         | Inr out \<Rightarrow>
             (let a' = length h;
                  h1 = h @ [out];
                  h2 = (if has_key (case opts of JObj os \<Rightarrow> os | _ \<Rightarrow> []) ''strip''
                        then strip (get_prop opts ''strip'') a' h1 else h1);
                  h3 = h2[a' := map_id schema input opts (h2 ! a')]
              in Inr (a', h3)))"

text \<open>Modelled from the spec: the \<^verbatim>\<open>transforms\<close> of a field, as names.\<close>

definition names_of :: "jsval \<Rightarrow> string list" where
  "names_of t =
     (case t of
        JStr s \<Rightarrow> [s]
      | JArr ks \<Rightarrow> concat (map (\<lambda>k. case k of JStr s \<Rightarrow> [s] | _ \<Rightarrow> []) ks)
      | _ \<Rightarrow> [])"

text \<open>
  Modelled from the spec: the value steps without generators: a \<^verbatim>\<open>default\<close> fills
  an empty value unless the option \<^verbatim>\<open>defaults\<close> is false (step 2), then the field's
  transforms are applied as the spec's pipeline unless the option \<^verbatim>\<open>transform\<close> is
  false (step 4).
\<close>

definition spec_compute :: "jsval \<Rightarrow> string \<Rightarrow> jsval \<Rightarrow> jsval \<Rightarrow> bool \<Rightarrow> jserr + jsval" where
  "spec_compute opts k scm v present =
     (let v1 = (if get_prop opts ''defaults'' \<noteq> JBool False \<and> isEmpty v \<and>
                   get_prop scm ''default'' \<noteq> JUndefined
                then get_prop scm ''default'' else v)
      in if get_prop opts ''transform'' \<noteq> JBool False
         then spec_applyTransforms builtin_transforms v1 (names_of (get_prop scm ''transforms''))
         else Inr v1)"

text \<open>Modelled from the spec: the value steps as the parameter of \<open>format\<close>.\<close>

definition spec_fdeps :: fdeps where
  "spec_fdeps = \<lparr>compute = spec_compute\<rparr>"

section \<open>Example inputs\<close>

text \<open>The options of a call that passes none: \<^verbatim>\<open>opts = {}\<close>.\<close>

definition default_opts :: opts where
  "default_opts = \<lparr>keyCheckOnly = False, strict = False, sparse = False\<rparr>"




text \<open>
  A model with a required sub-object \<^verbatim>\<open>address\<close> and a required \<^verbatim>\<open>name\<close>, and data
  whose \<^verbatim>\<open>address\<close> carries a key \<^verbatim>\<open>zip\<close> that the sub-model does not declare.
\<close>

definition address_model :: jsval where
  "address_model = JObj
     [(''address'', JObj [(''required'', JBool True),
                          (''model'', JObj [(''city'', JObj [(''type'', JStr ''string'')])])]),
      (''name'', JObj [(''required'', JBool True)])]"

definition address_data :: jsval where
  "address_data = JObj [(''address'', JObj [(''city'', JStr ''Irk''), (''zip'', JNum 1)])]"

text \<open>
  A model with an optional field \<^verbatim>\<open>nick\<close> (a type, no rules, no default) and a
  sub-object \<^verbatim>\<open>address\<close>, and data without \<^verbatim>\<open>nick\<close> whose \<^verbatim>\<open>address\<close> carries an
  undeclared key that happens to be called \<^verbatim>\<open>nick\<close>.
\<close>

definition nick_model :: jsval where
  "nick_model = JObj
     [(''nick'', JObj [(''type'', JStr ''string'')]),
      (''address'', JObj [(''model'', JObj [(''city'', JObj [(''type'', JStr ''string'')])])])]"

definition nick_data :: jsval where
  "nick_data = JObj [(''address'', JObj [(''nick'', JStr ''Zim'')])]"

text \<open>
  The spec's example of an array of sub-objects: the sub-model under the attribute
  \<^verbatim>\<open>model\<close> that the code reads (\<open>gir_model\<close>), and under the attribute \<^verbatim>\<open>schema\<close>
  of the spec's wording (\<open>gir_schema\<close>).
\<close>

definition gir_model :: jsval where
  "gir_model = JObj [(''gir'', JObj [(''model'', JObj [(''age'', JObj [(''type'', JStr ''integer'')])])])]"

definition gir_schema :: jsval where
  "gir_schema = JObj [(''gir'', JObj [(''schema'', JObj [(''age'', JObj [(''type'', JStr ''integer'')])])])]"

definition gir_data :: jsval where
  "gir_data = JObj [(''gir'', JArr [JObj [(''age'', JNum 2)], JObj [(''age'', JStr ''x'')]])]"

text \<open>The model of the README's format examples, without its generator.\<close>

definition my_model :: jsval where
  "my_model = JObj
     [(''mod_id'', JObj [(''primaryKey'', JBool True)]),
      (''rando'', JObj []),
      (''power'', JObj [(''default'', JNum 5)]),
      (''name'', JObj [(''default'', JStr ''zim''), (''transforms'', JArr [JStr ''uppercase''])])]"

section \<open>Properties of property reads and assignments\<close>

lemma inherited_object:
  "k \<notin> set object_prototype_names \<Longrightarrow> inherited ''Object'' k = JUndefined"
  by (simp add: inherited_def chain_member_def proto_methods_def object_prototype_names_def)

lemma get_prop_own:
  "k \<notin> set object_prototype_names \<Longrightarrow>
     get_prop (JObj kvs) k = (case map_of kvs k of Some v \<Rightarrow> v | None \<Rightarrow> JUndefined)"
  by (simp add: inherited_object split: option.splits)

lemma object_prototype_names_short: "k \<in> set object_prototype_names \<Longrightarrow> length k \<le> 20"
  by (auto simp: object_prototype_names_def object_prototype_methods_def)

lemma builtin_names_letter:
  "\<forall>n\<in>set builtin_names. \<exists>c\<in>set n. c \<notin> set ''0123456789''"
  by code_simp

lemma string_of_nat_not_builtin: "string_of_nat j \<notin> set builtin_names"
  using builtin_names_letter string_of_nat_digits [of j] by blast

lemma string_of_nat_not_inherited: "string_of_nat j \<notin> set object_prototype_names"
  using string_of_nat_not_builtin [of j] by (auto simp: builtin_names_def)

lemma map_of_assign:
  "map_of (assign kvs k v) k' = (if k' = k \<and> k \<noteq> ''__proto__'' then Some v else map_of kvs k')"
  by (simp add: assign_def update_conv')



section \<open>Properties of the key check\<close>

lemma checkKeys_loop_nullish:
  "nullish model \<Longrightarrow> keys \<noteq> [] \<Longrightarrow> checkKeys_loop model keys ret = Inl TypeError"
  by (cases keys; cases ret) simp_all

lemma checkKeys_loop_result:
  assumes "\<not> nullish model"
  shows "\<exists>errs'. checkKeys_loop model keys (ok, errs) =
             Inr (ok \<and> unknown_keys model keys = [], errs') \<and>
           (\<forall>k'. map_of errs' k' =
              (if k' \<in> shortKey ` set (unknown_keys model keys) \<and> k' \<noteq> ''__proto__''
               then Some (JArr [JStr ''invalidKey'']) else map_of errs k'))"
  using assms
proof (induction keys arbitrary: ok errs)
  case Nil
  then show ?case by (simp add: unknown_keys_def)
next
  case (Cons key keys)
  show ?case
  proof (cases "truthy (get_prop model key)")
    case True
    with Cons.IH [OF Cons.prems, of ok errs] Cons.prems show ?thesis
      by (simp add: unknown_keys_def)
  next
    case False
    from Cons.IH [OF Cons.prems, of False "assign errs (shortKey key) (JArr [JStr ''invalidKey''])"]
    obtain errs' where
      e: "checkKeys_loop model keys (False, assign errs (shortKey key) (JArr [JStr ''invalidKey'']))
            = Inr (False, errs')"
      and m: "\<And>k'. map_of errs' k' =
              (if k' \<in> shortKey ` set (unknown_keys model keys) \<and> k' \<noteq> ''__proto__''
               then Some (JArr [JStr ''invalidKey''])
               else map_of (assign errs (shortKey key) (JArr [JStr ''invalidKey''])) k')"
      by auto
    from False Cons.prems e m show ?thesis
      by (auto simp: unknown_keys_def map_of_assign)
  qed
qed

lemma length_shortKey: "length (shortKey k) \<le> 48"
  by (simp add: shortKey_def MAX_USER_KEY_LEN_def)


lemma priv_checkKeys_object:
  assumes "is_object data" "\<not> nullish model"
  shows "\<exists>errs. priv_checkKeys model data =
            Inr \<lparr>valid = (unknown_keys model (own_keys data) = []), errors = JObj errs\<rparr> \<and>
          (\<forall>k'. map_of errs k' =
              (if k' \<in> shortKey ` set (unknown_keys model (own_keys data)) \<and> k' \<noteq> ''__proto__''
               then Some (JArr [JStr ''invalidKey'']) else None))"
proof -
  from checkKeys_loop_result [OF assms(2), of "own_keys data" True "[]"]
  obtain errs' where "checkKeys_loop model (own_keys data) (True, []) =
             Inr (unknown_keys model (own_keys data) = [], errs')"
     and "\<And>k'. map_of errs' k' =
              (if k' \<in> shortKey ` set (unknown_keys model (own_keys data)) \<and> k' \<noteq> ''__proto__''
               then Some (JArr [JStr ''invalidKey'']) else None)"
    by auto
  with assms(1) show ?thesis
    by (simp add: priv_checkKeys_def)
qed

text \<open>
  Claim C10. For every data value that is not a keyed object, \<open>validate\<close> with
  \<open>strict\<close> or \<open>keyCheckOnly\<close> set returns
  \<^verbatim>\<open>{valid: false, errors: {data: ['invalidObject']}}\<close>. The result is the same
  for every model and for every \<open>checkValue\<close> and \<open>setDefault\<close> (also ones that
  throw): no field rule is evaluated.
\<close>

theorem validate_not_object:
  assumes "\<not> is_object data" and "keyCheckOnly opts \<or> strict opts"
  shows "validate d model data opts =
           Inr \<lparr>valid = False, errors = JObj [(''data'', JArr [JStr ''invalidObject''])]\<rparr>"
  using assms by (auto simp: validate_def priv_checkKeys_def)

theorem validate_not_object_witness:
  "\<not> is_object (JNum 3) \<and> strict \<lparr>keyCheckOnly = False, strict = True, sparse = False\<rparr> \<and>
   validate spec_deps (JObj [(''a'', JObj [(''type'', JStr ''string'')])]) (JNum 3)
       \<lparr>keyCheckOnly = False, strict = True, sparse = False\<rparr> =
     Inr \<lparr>valid = False, errors = JObj [(''data'', JArr [JStr ''invalidObject''])]\<rparr>"
  using validate_not_object [of "JNum 3" "\<lparr>keyCheckOnly = False, strict = True, sparse = False\<rparr>"
       spec_deps "JObj [(''a'', JObj [(''type'', JStr ''string'')])]"]
  by simp

text \<open>
  Claim C9. When the key check of \<open>strict\<close> or \<open>keyCheckOnly\<close> finds a data key
  that is not on the model and is longer than 48 characters, the error is recorded
  under the first 45 characters of the key followed by \<^verbatim>\<open>...\<close>, and nothing is
  recorded under the key itself.
\<close>

theorem long_key_truncated:
  assumes "is_object data" and "key \<in> set (own_keys data)"
    and "\<not> nullish model" and "\<not> truthy (get_prop model key)"
    and "length key > 48"
    and "keyCheckOnly opts \<or> strict opts"
  shows "\<exists>r. validate d model data opts = Inr r \<and> \<not> valid r \<and>
           get_prop (errors r) (take 45 key @ ''...'') = JArr [JStr ''invalidKey''] \<and>
           get_prop (errors r) key = JUndefined"
proof -
  from priv_checkKeys_object [OF assms(1,3)] obtain errs where
    r: "priv_checkKeys model data =
          Inr \<lparr>valid = (unknown_keys model (own_keys data) = []), errors = JObj errs\<rparr>"
    and m: "\<And>k'. map_of errs k' =
              (if k' \<in> shortKey ` set (unknown_keys model (own_keys data)) \<and> k' \<noteq> ''__proto__''
               then Some (JArr [JStr ''invalidKey'']) else None)"
    by auto
  from assms(2,4) have u: "key \<in> set (unknown_keys model (own_keys data))"
    by (simp add: unknown_keys_def)
  then have nv: "unknown_keys model (own_keys data) \<noteq> []" by auto
  from assms(5) have sk: "shortKey key = take 45 key @ ''...''"
    by (simp add: shortKey_def MAX_USER_KEY_LEN_def)
  from assms(5) have "length (take 45 key @ ''...'') = 48" by simp
  then have np: "take 45 key @ ''...'' \<noteq> ''__proto__''" by auto
  from u have "shortKey key \<in> shortKey ` set (unknown_keys model (own_keys data))"
    by (rule imageI)
  with m sk np have "map_of errs (take 45 key @ ''...'') = Some (JArr [JStr ''invalidKey''])"
    by simp
  then have a: "get_prop (JObj errs) (take 45 key @ ''...'') = JArr [JStr ''invalidKey'']"
    by simp
  have "key \<notin> shortKey ` set (unknown_keys model (own_keys data))"
  proof
    assume "key \<in> shortKey ` set (unknown_keys model (own_keys data))"
    then obtain k where "key = shortKey k" by auto
    with length_shortKey [of k] assms(5) show False by simp
  qed
  with m have "map_of errs key = None" by simp
  moreover from assms(5) object_prototype_names_short [of key]
  have "key \<notin> set object_prototype_names" by auto
  ultimately have b: "get_prop (JObj errs) key = JUndefined"
    by (simp add: inherited_object)
  from assms(6) r nv a b show ?thesis
    by (auto simp: validate_def)
qed

theorem long_key_truncated_witness:
  "is_object (JObj [(''a'', JStr ''hi''), (''abcdefghijklmnopqrstuvwxyzabcdefghijklmnopqrstuvw'', JNum 9)]) \<and>
   ''abcdefghijklmnopqrstuvwxyzabcdefghijklmnopqrstuvw'' \<in>
     set (own_keys (JObj [(''a'', JStr ''hi''),
       (''abcdefghijklmnopqrstuvwxyzabcdefghijklmnopqrstuvw'', JNum 9)])) \<and>
   length ''abcdefghijklmnopqrstuvwxyzabcdefghijklmnopqrstuvw'' > 48 \<and>
   (\<exists>r. validate spec_deps (JObj [(''a'', JObj [(''type'', JStr ''string'')])])
          (JObj [(''a'', JStr ''hi''), (''abcdefghijklmnopqrstuvwxyzabcdefghijklmnopqrstuvw'', JNum 9)])
          \<lparr>keyCheckOnly = True, strict = False, sparse = False\<rparr> = Inr r \<and> \<not> valid r \<and>
        get_prop (errors r) ''abcdefghijklmnopqrstuvwxyzabcdefghijklmnopqrs...'' =
          JArr [JStr ''invalidKey''] \<and>
        get_prop (errors r) ''abcdefghijklmnopqrstuvwxyzabcdefghijklmnopqrstuvw'' = JUndefined)"
proof -
  have h: "\<not> truthy (get_prop (JObj [(''a'', JObj [(''type'', JStr ''string'')])])
             ''abcdefghijklmnopqrstuvwxyzabcdefghijklmnopqrstuvw'')"
    by code_simp
  from long_key_truncated [of
    "JObj [(''a'', JStr ''hi''), (''abcdefghijklmnopqrstuvwxyzabcdefghijklmnopqrstuvw'', JNum 9)]"
    "''abcdefghijklmnopqrstuvwxyzabcdefghijklmnopqrstuvw''"
    "JObj [(''a'', JObj [(''type'', JStr ''string'')])]"
    "\<lparr>keyCheckOnly = True, strict = False, sparse = False\<rparr>" spec_deps] h
  show ?thesis by simp
qed

section \<open>Properties of the recursive validator\<close>

lemma index_of_key_length: "index_of_key ''length'' n = None"
proof -
  have "string_of_nat i \<noteq> ''length''" for i
    using string_of_nat_digits [of i] by auto
  then show ?thesis
    by (simp add: index_of_key_def find_None_iff)
qed

lemma own_prop_get: "own_prop x k = Some v \<Longrightarrow> get_prop x k = v"
  by (cases x) (auto simp: index_of_key_length)

lemma proto_is_builtin: "''__proto__'' \<in> set builtin_names"
  by (simp add: builtin_names_def object_prototype_names_def)

lemma get_prop_inherited_none:
  assumes "k' \<notin> set builtin_names"
  shows "get_prop (inherited p k) k' = JUndefined"
proof -
  from assms proto_is_builtin have np: "k' \<noteq> ''__proto__''" by auto
  have a: "chain_member q k' = JUndefined" for q by (rule chain_member_none [OF assms])
  have b: "inherited q k' = JUndefined" for q by (rule inherited_none [OF assms])
  have c: "chain_member p k = JUndefined \<or> (\<exists>f. chain_member p k = JFun f)"
    by (simp add: chain_member_def)
  show ?thesis
  proof (cases "k = ''__proto__''")
    case True
    with a np show ?thesis by (simp add: inherited_def)
  next
    case False
    with c b show ?thesis by (auto simp: inherited_def)
  qed
qed

lemma map_of_set_index_error:
  "key' \<noteq> key \<Longrightarrow> map_of (set_index_error errs key idx e) key' = map_of errs key'"
  by (auto simp: set_index_error_def Let_def update_conv' map_of_assign split: option.splits)

lemma validate_elems_frame:
  "validate_elems d data sub opts key vals idx errs = Inr errs' \<Longrightarrow> key' \<noteq> key \<Longrightarrow>
     map_of errs' key' = map_of errs key'"
proof (induction vals arbitrary: idx errs)
  case Nil
  then show ?case by simp
next
  case (Cons val vals)
  from Cons.prems show ?case
    by (auto split: if_splits sum.splits dest!: Cons.IH simp: map_of_set_index_error)
qed

lemma validate_fields_step:
  assumes "validate_fields d data model opts (k # ks) errs = Inr r"
    and "\<not> sub_check_fails d model data k"
  shows "\<exists>errs'. validate_fields d data model opts ks errs' = Inr r \<and>
           (\<forall>key. key \<noteq> k \<longrightarrow> map_of errs' key = map_of errs key)"
  using assms
  by (auto simp: Let_def sub_check_fails_def map_of_assign split: if_splits sum.splits jsval.splits
           dest: validate_elems_frame)

lemma validate_fields_frame:
  assumes "validate_fields d data model opts keys errs = Inr r"
    and "\<forall>k\<in>set keys. \<not> sub_check_fails d model data k"
    and "key \<notin> set keys"
  shows "own_prop (errors r) key = map_of errs key"
  using assms
proof (induction keys arbitrary: errs)
  case Nil
  then show ?case by (cases errs) auto
next
  case (Cons k ks)
  from Cons.prems(2) have nf: "\<not> sub_check_fails d model data k" by simp
  from validate_fields_step [OF Cons.prems(1) nf] obtain errs' where
    a: "validate_fields d data model opts ks errs' = Inr r"
    and b: "\<And>key. key \<noteq> k \<Longrightarrow> map_of errs' key = map_of errs key"
    by blast
  from Cons.prems have "own_prop (errors r) key = map_of errs' key"
    by (intro Cons.IH [OF a]) auto
  moreover from Cons.prems(3) have "key \<noteq> k" by auto
  ultimately show ?case using b by simp
qed


lemma validate_fields_skip_step:
  assumes "\<not> hasRules (get_prop model key)" and "\<not> isRequired (get_prop model key)"
    and "hasEmptyDefault d (get_prop data key) (get_prop model key)"
  shows "validate_fields d data model opts (key # ks) errs = validate_fields d data model opts ks errs"
  using assms by (simp add: Let_def)

lemma validate_fields_scalar_step:
  assumes "truthy (get_prop model key)"
    and "hasRules (get_prop model key) \<or> isRequired (get_prop model key) \<or>
         \<not> hasEmptyDefault d (get_prop data key) (get_prop model key)"
    and "\<not> truthy (get_prop (get_prop model key) ''model'')"
  shows "validate_fields d data model opts (key # ks) errs =
           (case checkValue d (get_prop data key) (get_prop model key) data opts of
              Inl e \<Rightarrow> Inl e
            | Inr es \<Rightarrow>
                validate_fields d data model opts ks
                  (if length es \<noteq> 0 then assign errs key (JArr (map JStr es)) else errs))"
  using assms by (auto simp: Let_def)

lemma truthy_prop:
  assumes "k \<notin> set builtin_names" and "truthy (get_prop x k)"
  shows "truthy x"
  using assms
proof (cases x)
  case (JStr s)
  with assms show ?thesis
    by (cases "s = []") (auto simp: inherited_none index_of_key_def split: if_splits)
qed (auto simp: inherited_none chain_member_none split: if_splits)


lemma validate_fields_array_step:
  assumes "truthy (get_prop (get_prop model key) ''model'')"
    and "hasRules (get_prop model key) \<or> isRequired (get_prop model key) \<or>
         \<not> hasEmptyDefault d (get_prop data key) (get_prop model key)"
    and "get_prop data key = JArr vals"
  shows "validate_fields d data model opts (key # ks) errs =
           (case validate_elems d data (get_prop (get_prop model key) ''model'') opts key vals 0 errs of
              Inl e \<Rightarrow> Inl e
            | Inr errs' \<Rightarrow> validate_fields d data model opts ks errs')"
proof -
  from assms(1) have "truthy (get_prop model key)"
    by (rule truthy_prop [OF model_not_builtin])
  with assms show ?thesis
    by (auto simp: Let_def is_array_def)
qed


lemma validate_elems_step:
  "validate_elems d data sub opts key (val # vals) idx errs =
     (case elem_report d data sub opts val of
        Inl e \<Rightarrow> Inl e
      | Inr None \<Rightarrow> validate_elems d data sub opts key vals (Suc idx) errs
      | Inr (Some e) \<Rightarrow> validate_elems d data sub opts key vals (Suc idx) (set_index_error errs key idx e))"
  by (simp add: elem_report_def split: sum.splits)


subsection \<open>The verdict\<close>


















subsection \<open>Required fields\<close>





subsection \<open>The strict key check\<close>






subsection \<open>Sub-objects\<close>

text \<open>
  Claim C1 does not hold of the code. With the models of the collaborators left
  open: when the key check of the sub-object \<^verbatim>\<open>address\<close> fails, \<open>validate\<close> returns
  that key check's report as the whole result. The failure is not recorded under
  \<^verbatim>\<open>address\<close>, and the missing required \<^verbatim>\<open>name\<close> is not reported.
\<close>

theorem sub_object_key_check_returns:
  "validate d address_model address_data default_opts =
     Inr \<lparr>valid = False, errors = JObj [(''zip'', JArr [JStr ''invalidKey''])]\<rparr>"
  by (simp add: validate_def default_opts_def address_model_def address_data_def
        priv_validate.simps Let_def isRequired_def is_array_def priv_checkKeys_def shortKey_def
        MAX_USER_KEY_LEN_def assign_def inherited_def chain_member_def proto_methods_def
        object_prototype_methods_def)

text \<open>
  A field that is skipped gets no entry of its own: when no key check of a sub-object
  ends the run, the error report has nothing under its key.
\<close>

lemma validate_fields_skipped_field:
  assumes "validate_fields d data model opts keys errs = Inr r"
    and "\<forall>k\<in>set keys. \<not> sub_check_fails d model data k"
    and "distinct keys" and "key \<in> set keys"
    and "map_of errs key = None"
    and "\<not> hasRules (get_prop model key)" and "\<not> isRequired (get_prop model key)"
    and "hasEmptyDefault d (get_prop data key) (get_prop model key)"
  shows "own_prop (errors r) key = None"
  using assms(1-5)
proof (induction keys arbitrary: errs)
  case Nil
  then show ?case by simp
next
  case (Cons k ks)
  show ?case
  proof (cases "k = key")
    case True
    with Cons.prems(1) have a: "validate_fields d data model opts ks errs = Inr r"
      by (simp only: validate_fields_skip_step [OF assms(6,7,8)])
    from Cons.prems(3) True have "key \<notin> set ks" by simp
    with validate_fields_frame [OF a] Cons.prems(2,5) show ?thesis by simp
  next
    case False
    from Cons.prems(2) have nf: "\<not> sub_check_fails d model data k" by simp
    from validate_fields_step [OF Cons.prems(1) nf] obtain errs' where
      a: "validate_fields d data model opts ks errs' = Inr r"
      and b: "\<forall>key. key \<noteq> k \<longrightarrow> map_of errs' key = map_of errs key" by blast
    from b False Cons.prems(5) have "map_of errs' key = None" by simp
    with Cons.prems False show ?thesis
      by (intro Cons.IH [OF a]) auto
  qed
qed

lemma skipped_field_no_entry:
  assumes "is_object data" and "distinct (own_keys model)" and "key \<in> set (own_keys model)"
    and "\<not> hasRules (get_prop model key)" and "\<not> isRequired (get_prop model key)"
    and "hasEmptyDefault d (get_prop data key) (get_prop model key)"
    and "\<forall>k\<in>set (own_keys model). \<not> sub_check_fails d model data k"
    and "priv_validate d data model opts parent = Inr r"
  shows "own_prop (errors r) key = None"
proof -
  from assms(1,8) have vf: "validate_fields d data model opts (own_keys model) [] = Inr r"
    by (simp add: priv_validate.simps)
  have u: "map_of [] key = None" by simp
  show ?thesis
    by (rule validate_fields_skipped_field [OF vf assms(7,2,3) u assms(4,5,6)])
qed

text \<open>
  Claim C5 does not hold of the code. The field \<^verbatim>\<open>nick\<close> is not required, has no
  rules and an empty value after its default, and is skipped; the key check of the
  sub-object \<^verbatim>\<open>address\<close> then fails and its report becomes the result, with an entry
  under \<^verbatim>\<open>nick\<close>.
\<close>

theorem skipped_field_gets_entry:
  "\<not> isRequired (get_prop nick_model ''nick'') \<and> \<not> hasRules (get_prop nick_model ''nick'') \<and>
   hasEmptyDefault spec_deps (get_prop nick_data ''nick'') (get_prop nick_model ''nick'') \<and>
   validate spec_deps nick_model nick_data default_opts =
     Inr \<lparr>valid = False, errors = JObj [(''nick'', JArr [JStr ''invalidKey''])]\<rparr>"
  by code_simp

subsection \<open>Arrays\<close>

lemma string_of_nat_nonempty: "string_of_nat n \<noteq> []"
  by (subst string_of_nat.simps) simp

lemma digit_inj:
  assumes "a < 10" "b < 10" "''0123456789'' ! a = ''0123456789'' ! b"
  shows "a = b"
proof -
  have "distinct ''0123456789''" by simp
  moreover have "a < length ''0123456789''" "b < length ''0123456789''" using assms by simp_all
  ultimately show ?thesis using assms(3) nth_eq_iff_index_eq by blast
qed

lemma string_of_nat_inj: "string_of_nat m = string_of_nat n \<Longrightarrow> m = n"
proof (induction m arbitrary: n rule: string_of_nat.induct)
  case (1 m)
  show ?case
  proof (cases "m < 10")
    case m: True
    show ?thesis
    proof (cases "n < 10")
      case True
      with m "1.prems" have "''0123456789'' ! m = ''0123456789'' ! n"
        by (simp add: string_of_nat.simps [of m] string_of_nat.simps [of n])
      with m True show ?thesis by (rule digit_inj)
    next
      case False
      with m "1.prems" have "string_of_nat (n div 10) = []"
        by (simp add: string_of_nat.simps [of m] string_of_nat.simps [of n])
      with string_of_nat_nonempty show ?thesis by blast
    qed
  next
    case m: False
    show ?thesis
    proof (cases "n < 10")
      case True
      with m "1.prems" have "string_of_nat (m div 10) = []"
        by (simp add: string_of_nat.simps [of m] string_of_nat.simps [of n])
      with string_of_nat_nonempty show ?thesis by blast
    next
      case False
      with m "1.prems" have a: "string_of_nat (m div 10) = string_of_nat (n div 10)"
        and b: "''0123456789'' ! (m mod 10) = ''0123456789'' ! (n mod 10)"
        by (simp_all add: string_of_nat.simps [of m] string_of_nat.simps [of n])
      from "1.IH" [OF m a] have "m div 10 = n div 10" .
      moreover from b have "m mod 10 = n mod 10" by (intro digit_inj) simp_all
      ultimately show ?thesis by (metis div_mult_mod_eq)
    qed
  qed
qed

lemma set_index_error_slot:
  assumes "map_of errs key = None \<or> (\<exists>m. map_of errs key = Some (JObj m))"
    and "key \<notin> set object_prototype_names"
  shows "(\<exists>m. map_of (set_index_error errs key idx e) key = Some (JObj m)) \<and>
         index_entry (JObj (set_index_error errs key idx e)) key j =
           (if j = idx then Some e else index_entry (JObj errs) key j)"
proof -
  from assms(2) have np: "key \<noteq> ''__proto__''" by (auto simp: object_prototype_names_def)
  have ni: "string_of_nat idx \<noteq> ''__proto__''"
    using string_of_nat_not_inherited [of idx] by (auto simp: object_prototype_names_def)
  from assms(1) show ?thesis
  proof
    assume n: "map_of errs key = None"
    with assms(2) have "\<not> truthy (get_prop (JObj errs) key)"
      by (simp add: inherited_object)
    with n np ni show ?thesis
      by (auto simp: set_index_error_def index_entry_def Let_def assign_def update_conv'
               dest: string_of_nat_inj)
  next
    assume "\<exists>m. map_of errs key = Some (JObj m)"
    then obtain m where m: "map_of errs key = Some (JObj m)" by blast
    then have "truthy (get_prop (JObj errs) key)" by simp
    with m np ni show ?thesis
      by (auto simp: set_index_error_def index_entry_def Let_def assign_def update_conv'
               dest: string_of_nat_inj)
  qed
qed

lemma validate_elems_slots:
  assumes "validate_elems d data sub opts key vals idx errs = Inr errs'"
    and "map_of errs key = None \<or> (\<exists>m. map_of errs key = Some (JObj m))"
    and "key \<notin> set object_prototype_names"
  shows "(map_of errs' key = None \<or> (\<exists>m. map_of errs' key = Some (JObj m))) \<and>
         (\<forall>j. index_entry (JObj errs') key j =
            (if idx \<le> j \<and> j < idx + length vals
             then (case elem_report d data sub opts (vals ! (j - idx)) of
                     Inr (Some e) \<Rightarrow> Some e | _ \<Rightarrow> index_entry (JObj errs) key j)
             else index_entry (JObj errs) key j))"
  using assms(1,2)
proof (induction vals arbitrary: idx errs)
  case Nil
  then show ?case by auto
next
  case (Cons val vals)
  show ?case
  proof (cases "elem_report d data sub opts val")
    case (Inl e)
    with Cons.prems(1) show ?thesis by (simp add: validate_elems_step del: validate_elems.simps)
  next
    case (Inr rep)
    show ?thesis
    proof (cases rep)
      case None
      with Inr Cons.prems(1) have
        a: "validate_elems d data sub opts key vals (Suc idx) errs = Inr errs'"
        by (simp add: validate_elems_step del: validate_elems.simps)
      from Cons.IH [OF a Cons.prems(2)] Inr None show ?thesis
        by (auto simp: nth_Cons' Suc_diff_le split: sum.splits option.splits)
    next
      case (Some e)
      with Inr Cons.prems(1) have
        a: "validate_elems d data sub opts key vals (Suc idx) (set_index_error errs key idx e) = Inr errs'"
        by (simp add: validate_elems_step del: validate_elems.simps)
      from set_index_error_slot [OF Cons.prems(2) assms(3)]
      have ok: "map_of (set_index_error errs key idx e) key = None \<or>
                (\<exists>m. map_of (set_index_error errs key idx e) key = Some (JObj m))"
        and sl: "\<And>j. index_entry (JObj (set_index_error errs key idx e)) key j =
                   (if j = idx then Some e else index_entry (JObj errs) key j)"
        by blast+
      from Cons.IH [OF a ok] Inr Some sl show ?thesis
        by (auto simp: nth_Cons' Suc_diff_le split: sum.splits option.splits)
    qed
  qed
qed

lemma validate_elems_reports:
  assumes "validate_elems d data sub opts key vals idx errs = Inr errs'"
    and "i < length vals"
  shows "\<exists>rep. elem_report d data sub opts (vals ! i) = Inr rep"
  using assms
proof (induction vals arbitrary: idx errs i)
  case Nil
  then show ?case by simp
next
  case (Cons val vals)
  from Cons.prems(1) obtain rep errs1 where
    r: "elem_report d data sub opts val = Inr rep"
    and a: "validate_elems d data sub opts key vals (Suc idx) errs1 = Inr errs'"
    by (auto simp: validate_elems_step simp del: validate_elems.simps split: sum.splits option.splits)
  show ?case
  proof (cases i)
    case 0
    with r show ?thesis by simp
  next
    case (Suc j)
    with Cons.prems(2) Cons.IH [OF a, of j] show ?thesis by simp
  qed
qed

lemma validate_fields_array_field:
  assumes "validate_fields d data model opts keys errs = Inr r"
    and "\<forall>k\<in>set keys. \<not> sub_check_fails d model data k"
    and "distinct keys" and "key \<in> set keys"
    and "map_of errs key = None"
    and "key \<notin> set object_prototype_names"
    and "truthy (get_prop (get_prop model key) ''model'')"
    and "hasRules (get_prop model key) \<or> isRequired (get_prop model key) \<or>
         \<not> hasEmptyDefault d (get_prop data key) (get_prop model key)"
    and "get_prop data key = JArr vals"
    and "i < length vals"
  shows "\<exists>rep. elem_report d data (get_prop (get_prop model key) ''model'') opts (vals ! i) = Inr rep \<and>
           index_entry (errors r) key i = rep"
  using assms(1-5)
proof (induction keys arbitrary: errs)
  case Nil
  then show ?case by simp
next
  case (Cons k ks)
  show ?case
  proof (cases "k = key")
    case True
    with Cons.prems(1) obtain errs' where
      ve: "validate_elems d data (get_prop (get_prop model key) ''model'') opts key vals 0 errs = Inr errs'"
      and a: "validate_fields d data model opts ks errs' = Inr r"
      by (auto simp del: validate_fields.simps
            simp: validate_fields_array_step [OF assms(7,8,9)] split: sum.splits)
    from validate_elems_reports [OF ve assms(10)] obtain rep where
      rep: "elem_report d data (get_prop (get_prop model key) ''model'') opts (vals ! i) = Inr rep"
      by blast
    from Cons.prems(5) have ok: "map_of errs key = None \<or> (\<exists>m. map_of errs key = Some (JObj m))"
      by simp
    from Cons.prems(5) have u: "index_entry (JObj errs) key i = None"
      by (simp add: index_entry_def)
    from validate_elems_slots [OF ve ok assms(6)] assms(10) rep u
    have s: "index_entry (JObj errs') key i = rep"
      by (simp split: option.splits)
    from Cons.prems(3) True have "key \<notin> set ks" by simp
    with validate_fields_frame [OF a] Cons.prems(2)
    have "own_prop (errors r) key = map_of errs' key" by simp
    with s have "index_entry (errors r) key i = rep" by (simp add: index_entry_def)
    with rep show ?thesis by simp
  next
    case False
    from Cons.prems(2) have nf: "\<not> sub_check_fails d model data k" by simp
    from validate_fields_step [OF Cons.prems(1) nf] obtain errs' where
      a: "validate_fields d data model opts ks errs' = Inr r"
      and b: "\<forall>key. key \<noteq> k \<longrightarrow> map_of errs' key = map_of errs key" by blast
    from b False Cons.prems(5) have "map_of errs' key = None" by simp
    with Cons.prems False show ?thesis
      by (intro Cons.IH [OF a]) auto
  qed
qed

text \<open>
  Claim C7, as amended. On a JSON-like model and JSON-like data: for a field that
  declares a sub-model (attribute \<^verbatim>\<open>model\<close>),
  is not named like a member of \<^verbatim>\<open>Object.prototype\<close> and whose value is an array,
  \<open>validate\<close> with default options, when it returns and no sub-object's key check
  has ended the run, records the error report of every element that fails under
  the field's key and the string index of the element, and has no property under
  the index of an element that passes.
\<close>

theorem array_errors_keyed_by_index:
  assumes "is_object data"
    and "distinct (own_keys model)"
    and "key \<in> set (own_keys model)"
    and "key \<notin> set object_prototype_names"
    and "truthy (get_prop (get_prop model key) ''model'')"
    and "get_prop data key = JArr vals"
    and "hasRules (get_prop model key) \<or> isRequired (get_prop model key) \<or>
         \<not> hasEmptyDefault d (get_prop data key) (get_prop model key)"
    and "\<forall>k\<in>set (own_keys model). \<not> sub_check_fails d model data k"
    and "\<not> keyCheckOnly opts" and "\<not> strict opts" and "\<not> sparse opts"
    and "validate d model data opts = Inr r"
    and "i < length vals"
    and "json model" and "json data"
  shows "\<exists>rep. elem_report d data (get_prop (get_prop model key) ''model'') opts (vals ! i) = Inr rep \<and>
           index_entry (errors r) key i = rep"
proof -
  from assms(9-12) have "priv_validate d data model opts (JObj []) = Inr r"
    by (simp add: validate_def)
  with assms(1) have vf: "validate_fields d data model opts (own_keys model) [] = Inr r"
    by (simp add: priv_validate.simps)
  have u: "map_of [] key = None" by simp
  show ?thesis
    by (rule validate_fields_array_field [OF vf assms(8,2,3) u assms(4,5,7,6,13)])
qed

theorem array_errors_keyed_by_index_witness:
  "json gir_model \<and> json gir_data \<and>
   is_object gir_data \<and> distinct (own_keys gir_model) \<and> ''gir'' \<in> set (own_keys gir_model) \<and>
   ''gir'' \<notin> set object_prototype_names \<and>
   truthy (get_prop (get_prop gir_model ''gir'') ''model'') \<and>
   get_prop gir_data ''gir'' = JArr [JObj [(''age'', JNum 2)], JObj [(''age'', JStr ''x'')]] \<and>
   validate spec_deps gir_model gir_data default_opts =
     Inr \<lparr>valid = False,
          errors = JObj [(''gir'', JObj [(''1'',
                     JObj [(''age'', JArr [JStr ''Not of type: integer''])])])]\<rparr> \<and>
   elem_report spec_deps gir_data (get_prop (get_prop gir_model ''gir'') ''model'')
       default_opts ([JObj [(''age'', JNum 2)], JObj [(''age'', JStr ''x'')]] ! 1) =
     Inr (Some (JObj [(''age'', JArr [JStr ''Not of type: integer''])])) \<and>
   index_entry (JObj [(''gir'', JObj [(''1'',
                     JObj [(''age'', JArr [JStr ''Not of type: integer''])])])]) ''gir'' 1 =
     Some (JObj [(''age'', JArr [JStr ''Not of type: integer''])]) \<and>
   elem_report spec_deps gir_data (get_prop (get_prop gir_model ''gir'') ''model'')
       default_opts ([JObj [(''age'', JNum 2)], JObj [(''age'', JStr ''x'')]] ! 0) = Inr None \<and>
   index_entry (JObj [(''gir'', JObj [(''1'',
                     JObj [(''age'', JArr [JStr ''Not of type: integer''])])])]) ''gir'' 0 = None"
proof -
  have h1: "is_object gir_data" by code_simp
  have h2: "distinct (own_keys gir_model)" by code_simp
  have h3: "''gir'' \<in> set (own_keys gir_model)" by code_simp
  have h3': "''gir'' \<notin> set object_prototype_names" by code_simp
  have h4: "truthy (get_prop (get_prop gir_model ''gir'') ''model'')" by code_simp
  have h5: "get_prop gir_data ''gir'' = JArr [JObj [(''age'', JNum 2)], JObj [(''age'', JStr ''x'')]]"
    by code_simp
  have h6: "hasRules (get_prop gir_model ''gir'') \<or> isRequired (get_prop gir_model ''gir'') \<or>
         \<not> hasEmptyDefault spec_deps (get_prop gir_data ''gir'') (get_prop gir_model ''gir'')"
    by code_simp
  have "list_all (\<lambda>k. \<not> sub_check_fails spec_deps gir_model gir_data k) (own_keys gir_model)"
    by code_simp
  then have h7: "\<forall>k\<in>set (own_keys gir_model). \<not> sub_check_fails spec_deps gir_model gir_data k"
    by (simp add: list_all_iff)
  have h8: "\<not> keyCheckOnly default_opts" "\<not> strict default_opts" "\<not> sparse default_opts"
    by (simp_all add: default_opts_def)
  have h9: "validate spec_deps gir_model gir_data default_opts =
     Inr \<lparr>valid = False,
          errors = JObj [(''gir'', JObj [(''1'',
                     JObj [(''age'', JArr [JStr ''Not of type: integer''])])])]\<rparr>" by code_simp
  have h10: "(1::nat) < length [JObj [(''age'', JNum 2)], JObj [(''age'', JStr ''x'')]]"
    and h10': "(0::nat) < length [JObj [(''age'', JNum 2)], JObj [(''age'', JStr ''x'')]]"
    by simp_all
  have h11: "elem_report spec_deps gir_data (get_prop (get_prop gir_model ''gir'') ''model'')
             default_opts ([JObj [(''age'', JNum 2)], JObj [(''age'', JStr ''x'')]] ! 1) =
             Inr (Some (JObj [(''age'', JArr [JStr ''Not of type: integer''])]))" by code_simp
  have h12: "elem_report spec_deps gir_data (get_prop (get_prop gir_model ''gir'') ''model'')
             default_opts ([JObj [(''age'', JNum 2)], JObj [(''age'', JStr ''x'')]] ! 0) =
             Inr None" by code_simp
  have j: "json gir_model" "json gir_data" by code_simp+
  from array_errors_keyed_by_index [OF h1 h2 h3 h3' h4 h5 h6 h7 h8 h9 h10 j]
    array_errors_keyed_by_index [OF h1 h2 h3 h3' h4 h5 h6 h7 h8 h9 h10' j]
    h1 h2 h3 h3' h4 h5 h9 h11 h12 j
  show ?thesis by simp
qed

text \<open>No error message has a property \<^verbatim>\<open>age\<close>.\<close>

lemma index_of_key_age: "index_of_key ''age'' n = None"
proof -
  have "string_of_nat i \<noteq> ''age''" for i
    using string_of_nat_digits [of i] by auto
  then show ?thesis
    by (simp add: index_of_key_def find_None_iff)
qed

lemma age_not_builtin: "''age'' \<notin> set builtin_names"
  by (simp add: builtin_names_def object_prototype_names_def object_prototype_methods_def
        proto_methods_def)

lemma no_age_in_messages:
  "get_prop (get_prop (JArr (map JStr es)) k) ''age'' = JUndefined"
proof (cases "k = ''length''")
  case True
  then show ?thesis by (simp add: inherited_none [OF age_not_builtin])
next
  case False
  show ?thesis
  proof (cases "index_of_key k (length es)")
    case None
    with False show ?thesis
      by (simp add: get_prop_inherited_none [OF age_not_builtin])
  next
    case (Some i)
    then have "i < length es" by (rule index_of_key_less)
    with False Some show ?thesis
      by (simp add: index_of_key_age inherited_none [OF age_not_builtin])
  qed
qed

text \<open>
  Claim C7 as stated fails on its own example: the code reads the sub-model from the
  attribute \<^verbatim>\<open>model\<close>, so a sub-schema given under \<^verbatim>\<open>schema\<close> is not validated and
  the data is valid; whatever the value check, no result has \<^verbatim>\<open>errors.gir['1'].age\<close>.
  And under the name of a member of \<^verbatim>\<open>Object.prototype\<close> the error of a failing
  element is lost: the element \<^verbatim>\<open>{age: 'x'}\<close> of the array \<^verbatim>\<open>constructor\<close> fails and
  the data is valid.
\<close>

theorem schema_attribute_counterexample:
  "validate spec_deps gir_schema gir_data default_opts = Inr \<lparr>valid = True, errors = JNull\<rparr> \<and>
   (\<forall>d. case validate d gir_schema gir_data default_opts of
           Inl e \<Rightarrow> True
         | Inr r \<Rightarrow> get_prop (get_prop (get_prop (errors r) ''gir'') ''1'') ''age'' = JUndefined) \<and>
   validate spec_deps
       (JObj [(''constructor'', JObj [(''model'', JObj [(''age'', JObj [(''type'', JStr ''integer'')])])])])
       (JObj [(''constructor'', JArr [JObj [(''age'', JStr ''x'')]])]) default_opts
     = Inr \<lparr>valid = True, errors = JNull\<rparr> \<and>
   elem_report spec_deps (JObj [(''constructor'', JArr [JObj [(''age'', JStr ''x'')]])])
       (JObj [(''age'', JObj [(''type'', JStr ''integer'')])]) default_opts
       (JObj [(''age'', JStr ''x'')])
     = Inr (Some (JObj [(''age'', JArr [JStr ''Not of type: integer''])]))"
proof (intro conjI)
  show "validate spec_deps gir_schema gir_data default_opts = Inr \<lparr>valid = True, errors = JNull\<rparr>"
    by code_simp
next
  show "validate spec_deps
       (JObj [(''constructor'', JObj [(''model'', JObj [(''age'', JObj [(''type'', JStr ''integer'')])])])])
       (JObj [(''constructor'', JArr [JObj [(''age'', JStr ''x'')]])]) default_opts
     = Inr \<lparr>valid = True, errors = JNull\<rparr>"
    by code_simp
next
  show "elem_report spec_deps (JObj [(''constructor'', JArr [JObj [(''age'', JStr ''x'')]])])
       (JObj [(''age'', JObj [(''type'', JStr ''integer'')])]) default_opts
       (JObj [(''age'', JStr ''x'')])
     = Inr (Some (JObj [(''age'', JArr [JStr ''Not of type: integer''])]))"
    by code_simp
next
  show "\<forall>d. case validate d gir_schema gir_data default_opts of
           Inl e \<Rightarrow> True
         | Inr r \<Rightarrow> get_prop (get_prop (get_prop (errors r) ''gir'') ''1'') ''age'' = JUndefined"
  proof
    fix d
    let ?scm = "JObj [(''schema'', JObj [(''age'', JObj [(''type'', JStr ''integer'')])])]"
    let ?v = "JArr [JObj [(''age'', JNum 2)], JObj [(''age'', JStr ''x'')]]"
    have v: "validate d gir_schema gir_data default_opts =
               validate_fields d gir_data gir_schema default_opts [''gir''] []"
      by (simp add: validate_def default_opts_def priv_validate.simps gir_schema_def gir_data_def)
    have g: "get_prop gir_schema ''gir'' = ?scm" "get_prop gir_data ''gir'' = ?v"
      by (simp_all add: gir_schema_def gir_data_def)
    have nm: "\<not> truthy (get_prop ?scm ''model'')"
      by (simp add: inherited_model)
    show "case validate d gir_schema gir_data default_opts of
           Inl e \<Rightarrow> True
         | Inr r \<Rightarrow> get_prop (get_prop (get_prop (errors r) ''gir'') ''1'') ''age'' = JUndefined"
    proof (cases "hasRules ?scm \<or> isRequired ?scm \<or> \<not> hasEmptyDefault d ?v ?scm")
      case False
      with g have "validate_fields d gir_data gir_schema default_opts [''gir''] [] =
                        validate_fields d gir_data gir_schema default_opts [] []"
        by (intro validate_fields_skip_step) simp_all
      with v show ?thesis by simp
    next
      case True
      have "validate_fields d gir_data gir_schema default_opts [''gir''] [] =
           (case checkValue d ?v ?scm gir_data default_opts of
              Inl e \<Rightarrow> Inl e
            | Inr es \<Rightarrow>
                validate_fields d gir_data gir_schema default_opts []
                  (if length es \<noteq> 0 then assign [] ''gir'' (JArr (map JStr es)) else []))"
        using True nm validate_fields_scalar_step [of gir_schema "''gir''" d gir_data default_opts "[]" "[]"]
        by (simp add: g del: validate_fields.simps get_prop.simps)
      then have r: "validate d gir_schema gir_data default_opts =
           (case checkValue d ?v ?scm gir_data default_opts of
              Inl e \<Rightarrow> Inl e
            | Inr es \<Rightarrow>
                Inr (if es = [] then \<lparr>valid = True, errors = JNull\<rparr>
                     else \<lparr>valid = False, errors = JObj [(''gir'', JArr (map JStr es))]\<rparr>))"
        unfolding v by (simp add: assign_def split: sum.splits)
      show ?thesis
      proof (cases "checkValue d ?v ?scm gir_data default_opts")
        case (Inl e)
        with r show ?thesis by simp
      next
        case (Inr es)
        show ?thesis
        proof (cases "es = []")
          case True
          with r Inr show ?thesis by simp
        next
          case False
          have "get_prop (JObj [(''gir'', JArr (map JStr es))]) ''gir'' = JArr (map JStr es)"
            by simp
          with r Inr False show ?thesis
            by (simp add: no_age_in_messages del: get_prop.simps)
        qed
      qed
    qed
  qed
qed

section \<open>Properties of the transform pipeline\<close>







section \<open>Properties of stripping and formatting\<close>

text \<open>
  \<open>strip\<close> is destructive: it removes from the object it is given every field whose
  value matches a sentinel, and touches no other object.
\<close>

lemma as_array_idem: "as_array (JArr (as_array sent)) = as_array sent"
  by (simp add: as_array_def)

lemma strip_each_result:
  "strip_each vals k data =
     (if \<exists>val\<in>set vals. strict_eq (get_prop (JObj data) k) val then AList.delete k data else data)"
proof (induction vals arbitrary: data)
  case Nil
  then show ?case by simp
next
  case (Cons val vals)
  show ?case
  proof (cases "strict_eq (get_prop (JObj data) k) val")
    case True
    have "strip_each (val # vals) k data = strip_each vals k (AList.delete k data)"
      using True by simp
    also have "\<dots> = AList.delete k data"
      by (simp only: Cons.IH AList.delete_idem if_cancel)
    finally show ?thesis using True by simp
  next
    case False
    have "strip_each (val # vals) k data = strip_each vals k data"
      using False by simp
    with False show ?thesis by (simp only: Cons.IH) simp
  qed
qed

lemma kept_idem: "kept (JArr (as_array sent)) ks = kept sent ks"
  by (rule ext) (simp add: kept_def as_array_idem)

lemma strip_loop_result:
  assumes "distinct (map fst data)"
  shows "strip_loop sent ks data = filter (kept sent ks) data"
  using assms
proof (induction ks arbitrary: data sent)
  case Nil
  then show ?case by (simp add: kept_def)
next
  case (Cons k ks)
  let ?hit = "\<exists>val\<in>set (as_array sent). strict_eq (get_prop (JObj data) k) val"
  have lookup: "get_prop (JObj data) k = snd p" if "p \<in> set data" "fst p = k" for p
  proof -
    from that(1) have "(fst p, snd p) \<in> set data" by simp
    with Cons.prems have "map_of data (fst p) = Some (snd p)"
      by (rule map_of_is_SomeI)
    with that(2) show ?thesis by simp
  qed
  show ?case
  proof (cases ?hit)
    case True
    have d1: "distinct (map fst (AList.delete k data))"
      using Cons.prems by (rule distinct_delete)
    have "strip_loop sent (k # ks) data = strip_loop (JArr (as_array sent)) ks (AList.delete k data)"
      using True by (simp only: strip_loop.simps strip_each_result if_True)
    also have "\<dots> = filter (kept (JArr (as_array sent)) ks) (AList.delete k data)"
      by (rule Cons.IH [OF d1])
    also have "\<dots> = filter (kept sent ks) (filter (\<lambda>p. k \<noteq> fst p) data)"
      by (simp add: kept_idem AList.delete_eq case_prod_beta)
    also have "\<dots> = filter (\<lambda>p. k \<noteq> fst p \<and> kept sent ks p) data"
      by (simp only: filter_filter)
    also have "\<dots> = filter (kept sent (k # ks)) data"
    proof (rule filter_cong [OF refl])
      fix p assume p: "p \<in> set data"
      show "(k \<noteq> fst p \<and> kept sent ks p) = kept sent (k # ks) p"
        using True lookup [OF p] by (auto simp: kept_def)
    qed
    finally show ?thesis .
  next
    case False
    have "strip_loop sent (k # ks) data = strip_loop (JArr (as_array sent)) ks data"
      using False by (simp only: strip_loop.simps strip_each_result if_False)
    also have "\<dots> = filter (kept (JArr (as_array sent)) ks) data"
      by (rule Cons.IH [OF Cons.prems])
    also have "\<dots> = filter (kept sent ks) data"
      by (simp only: kept_idem)
    also have "\<dots> = filter (kept sent (k # ks)) data"
    proof (rule filter_cong [OF refl])
      fix p assume p: "p \<in> set data"
      show "kept sent ks p = kept sent (k # ks) p"
        using False lookup [OF p] by (auto simp: kept_def)
    qed
    finally show ?thesis .
  qed
qed

lemma strip_result:
  assumes "a < length h" and "distinct (map fst (h ! a))"
  shows "strip sent a h ! a =
           filter (\<lambda>p. \<not> (\<exists>val\<in>set (as_array sent). strict_eq (snd p) val)) (h ! a)"
proof -
  have "filter (kept sent (map fst (h ! a))) (h ! a) =
        filter (\<lambda>p. \<not> (\<exists>val\<in>set (as_array sent). strict_eq (snd p) val)) (h ! a)"
    by (rule filter_cong [OF refl]) (simp add: kept_def)
  with assms strip_loop_result [OF assms(2), of sent "map fst (h ! a)"] show ?thesis
    by (simp add: strip_def)
qed

lemma strip_frame:
  "length (strip values a h) = length h \<and> (\<forall>b. b \<noteq> a \<longrightarrow> strip values a h ! b = h ! b)"
  by (simp add: strip_def)

text \<open>
  Claim C4. \<open>format\<close> returns a reference to a new record and leaves every record
  of the heap as it was, the caller's input among them: the strip step works on the
  new record only.
\<close>

theorem format_leaves_input:
  assumes "format fd schema data opts h = Inr (a', h')"
  shows "a' = length h \<and> length h' = Suc (length h) \<and> take (length h) h' = h \<and>
         (\<forall>a. data = Some a \<and> a < length h \<longrightarrow> a' \<noteq> a \<and> h' ! a = h ! a)"
proof -
  from assms obtain out where
    a: "a' = length h"
    and h': "h' = (let h1 = h @ [out];
                  h2 = (if has_key (case opts of JObj os \<Rightarrow> os | _ \<Rightarrow> []) ''strip''
                        then strip (get_prop opts ''strip'') (length h) h1 else h1)
              in h2[length h := map_id schema
                     (case data of None \<Rightarrow> [] | Some a \<Rightarrow> if a < length h then h ! a else [])
                     opts (h2 ! length h)])"
    by (auto simp: format_def Let_def split: sum.splits)
  have s: "length (strip v (length h) (h @ [out])) = Suc (length h) \<and>
           take (length h) (strip v (length h) (h @ [out])) = h" for v
    by (simp add: strip_def)
  from h' s have l: "length h' = Suc (length h)" and t: "take (length h) h' = h"
    by (simp_all add: Let_def)
  have "h' ! a = h ! a" if "a < length h" for a
  proof -
    from that have "take (length h) h' ! a = h' ! a" by simp
    with t show ?thesis by simp
  qed
  with a l t show ?thesis by auto
qed

theorem format_leaves_input_witness:
  "format spec_fdeps my_model (Some 0) (JObj [(''strip'', JArr [JUndefined, JStr ''x''])])
      [[(''rando'', JUndefined), (''power'', JStr ''x'')]] =
     Inr (1, [[(''rando'', JUndefined), (''power'', JStr ''x'')], [(''name'', JStr ''ZIM'')]]) \<and>
   (1::nat) = length [[(''rando'', JUndefined), (''power'', JStr ''x'')]] \<and>
   take (length [[(''rando'', JUndefined), (''power'', JStr ''x'')]])
     [[(''rando'', JUndefined), (''power'', JStr ''x'')], [(''name'', JStr ''ZIM'')]] =
     [[(''rando'', JUndefined), (''power'', JStr ''x'')]] \<and>
   strip (JArr [JUndefined, JStr ''x'']) 0 [[(''rando'', JUndefined), (''power'', JStr ''x'')]] =
     [[]]"
proof -
  have h: "format spec_fdeps my_model (Some 0) (JObj [(''strip'', JArr [JUndefined, JStr ''x''])])
      [[(''rando'', JUndefined), (''power'', JStr ''x'')]] =
     Inr (1, [[(''rando'', JUndefined), (''power'', JStr ''x'')], [(''name'', JStr ''ZIM'')]])"
    by code_simp
  have s: "strip (JArr [JUndefined, JStr ''x'']) 0
      [[(''rando'', JUndefined), (''power'', JStr ''x'')]] = [[]]"
    by code_simp
  from format_leaves_input [OF h] h s show ?thesis by simp
qed

end
